theory Spec2Isabelle
  imports Complex_Main
begin

section \<open>KoSpeech decoding: \<^verbatim>\<open>kospeech/decode/search.py\<close>\<close>

text \<open>
  A shallow embedding of the classes \<^verbatim>\<open>GreedySearch\<close> and \<^verbatim>\<open>BeamSearch\<close>.
  Mutation of the strategy object, of the model, of the queue and of the logger is explicit
  state passing; every \<^verbatim>\<open>raise\<close> of the source, and the two implicit ones
  (\<^verbatim>\<open>hypothesis[idx]\<close> out of range, \<^verbatim>\<open>timestep % print_every\<close> with a zero divisor),
  are values of the type \<open>error\<close>; a \<^verbatim>\<open>queue.get()\<close> on a queue that never receives
  another batch does not return, which is the outcome \<open>None\<close>.
\<close>

subsection \<open>Data\<close>

text \<open>
  A label tensor is the list of its rows. The input features of one sample are a matrix of
  reals; \<^verbatim>\<open>search\<close> only looks at how many samples a batch holds
  (\<^verbatim>\<open>inputs.shape[0]\<close>). Moving a tensor to a device (\<^verbatim>\<open>.to(device)\<close>,
  \<^verbatim>\<open>.cpu().detach().numpy()\<close>) keeps its values, so it is the identity here.
\<close>

type_synonym labels = "int list list"
type_synonym features = "real list list"

record batch =
  inputs :: "features list"
  targets :: labels
  input_lengths :: "int list"
  target_lengths :: "int list"

text \<open>The vocabulary object: \<^verbatim>\<open>vocab.label_to_string\<close> and \<^verbatim>\<open>len(vocab)\<close>.\<close>

record vocab =
  label_to_string :: "int list \<Rightarrow> string"
  len :: nat

text \<open>
  The classes of \<^verbatim>\<open>kospeech.metrics\<close> are imported by the source, not defined in it.
  A metric object remembers its class and its vocabulary, and has a state of its own that a
  call may change (a Python callable object); what a call computes is a parameter, see
  \<open>env\<close> below.
\<close>

datatype metric_kind = Character | Word

record 'ms error_rate =
  kind :: metric_kind
  rate_vocab :: vocab
  rate_state :: 'ms

text \<open>
  Models. \<^verbatim>\<open>isinstance\<close> is decided by the class of the module (a subclass counts
  as the class it extends; every class that extends none of the three is an
  \<^verbatim>\<open>OtherClass\<close>);
  \<^verbatim>\<open>nn.DataParallel\<close> wraps one module (\<^verbatim>\<open>model.module\<close>). A decoder is either
  some decoder of the model or a \<^verbatim>\<open>TopKDecoder(decoder, k)\<close> built around another one.
\<close>

datatype model_class = ListenAttendSpell | SpeechTransformer | DeepSpeech2 | OtherClass string

datatype decoder = Decoder string | TopKDecoder decoder int

record nn_module =
  module_class :: model_class
  decoder :: decoder
  training :: bool
  device_of :: string

datatype model = Module nn_module | DataParallel nn_module

text \<open>
  The three ways \<^verbatim>\<open>model.inference\<close> is called (lines 68, 70 and 72):
  with the device as third positional argument, with inputs and lengths only, and with the
  keyword argument \<^verbatim>\<open>blank_label\<close>.
\<close>

datatype inference_args =
    Args_device "features list" "int list" string
  | Args_plain "features list" "int list"
  | Args_blank_label "features list" "int list" int

datatype error =
    Unsupported_metric string
  | Unsupported_architecture_class model_class
  | Unsupported_architecture_tag string
  | IndexError
  | ZeroDivisionError
  | AttributeError
  | InferenceError string
  | Unequal_columns
  | OSError string

text \<open>
  \<^verbatim>\<open>Unsupported_metric\<close> is the \<^verbatim>\<open>ValueError\<close> of line 30,
  \<^verbatim>\<open>Unsupported_architecture_class\<close> the one of lines 45 and 54 (its message shows the
  type of the module), \<^verbatim>\<open>Unsupported_architecture_tag\<close> the one of line 74 (its message
  shows the tag). \<^verbatim>\<open>AttributeError\<close> is raised by the lookup of \<^verbatim>\<open>inference\<close> on an
  \<^verbatim>\<open>nn.DataParallel\<close> wrapper, which has no such attribute and forwards none to the
  module it wraps. \<^verbatim>\<open>InferenceError\<close> is any exception that \<^verbatim>\<open>model.inference\<close>
  raises; the source does not catch it. \<^verbatim>\<open>Unequal_columns\<close> is the \<^verbatim>\<open>ValueError\<close> of
  \<^verbatim>\<open>pd.DataFrame\<close> for columns of different lengths, and \<^verbatim>\<open>OSError\<close> the failure of
  \<^verbatim>\<open>to_csv\<close> to open the path it is given.

  The behaviour of the collaborators that the source imports: the state of a new metric
  object, a call of a metric object (the value it returns and its next state), and
  \<^verbatim>\<open>model.inference\<close>.
\<close>

record 'ms env =
  new_metric :: "metric_kind \<Rightarrow> vocab \<Rightarrow> 'ms"
  call_metric :: "'ms error_rate \<Rightarrow> labels \<Rightarrow> labels \<Rightarrow> real \<times> 'ms"
  inference :: "model \<Rightarrow> inference_args \<Rightarrow> string + labels"

definition CharacterErrorRate :: "'ms env \<Rightarrow> vocab \<Rightarrow> 'ms error_rate" where
  "CharacterErrorRate e v = \<lparr>kind = Character, rate_vocab = v, rate_state = new_metric e Character v\<rparr>"

definition WordErrorRate :: "'ms env \<Rightarrow> vocab \<Rightarrow> 'ms error_rate" where
  "WordErrorRate e v = \<lparr>kind = Word, rate_vocab = v, rate_state = new_metric e Word v\<rparr>"

subsection \<open>The strategy objects\<close>

record 'ms GreedySearch =
  target_list :: "string list"
  predict_list :: "string list"
  vocab :: vocab
  metric :: "'ms error_rate"

text \<open>\<^verbatim>\<open>class BeamSearch(GreedySearch)\<close>: the same fields and \<^verbatim>\<open>k\<close>.\<close>

record 'ms BeamSearch = "'ms GreedySearch" +
  k :: int

text \<open>\<^verbatim>\<open>GreedySearch.__init__(self, vocab, metric='char')\<close>, lines 20 to 30.\<close>

definition GreedySearch_init :: "'ms env \<Rightarrow> vocab \<Rightarrow> string \<Rightarrow> error + 'ms GreedySearch" where
  "GreedySearch_init e v m =
     (if m = ''char'' then
        Inr \<lparr>target_list = [], predict_list = [], vocab = v, metric = CharacterErrorRate e v\<rparr>
      else if m = ''word'' then
        Inr \<lparr>target_list = [], predict_list = [], vocab = v, metric = WordErrorRate e v\<rparr>
      else Inl (Unsupported_metric m))"

text \<open>
  \<^verbatim>\<open>BeamSearch.__init__(self, vocab, k)\<close>, lines 105 to 107: the constructor of the base
  class is called with the vocabulary only, so its \<^verbatim>\<open>metric\<close> is the default
  \<^verbatim>\<open>'char'\<close>.
\<close>

definition BeamSearch_init :: "'ms env \<Rightarrow> vocab \<Rightarrow> int \<Rightarrow> error + 'ms BeamSearch" where
  "BeamSearch_init e v k0 =
     (case GreedySearch_init e v ''char'' of
        Inl err \<Rightarrow> Inl err
      | Inr s \<Rightarrow> Inr \<lparr>target_list = target_list s, predict_list = predict_list s,
                      vocab = vocab s, metric = metric s, k = k0\<rparr>)"

subsection \<open>The world \<^verbatim>\<open>search\<close> runs in\<close>

text \<open>
  The strategy object \<^verbatim>\<open>self\<close>, the model, what \<^verbatim>\<open>logger.info\<close> has been given
  (the value of \<^verbatim>\<open>cer\<close> that the message formats), and the calls of
  \<^verbatim>\<open>model.inference\<close> made so far, in order. The queue is passed beside it.
\<close>

record 's world =
  self :: 's
  model :: model
  logger :: "real list"
  inference_calls :: "inference_args list"

text \<open>The local variables of \<^verbatim>\<open>search\<close> (lines 33 to 35).\<close>

record locals =
  cer :: real
  total_sent_num :: int
  timestep :: int

subsection \<open>\<^verbatim>\<open>GreedySearch.search\<close>\<close>

text \<open>Lines 37 to 54: the tag of the architecture, or the \<^verbatim>\<open>ValueError\<close>.\<close>

definition identify :: "model \<Rightarrow> error + string" where
  "identify mdl =
     (case mdl of
        DataParallel m \<Rightarrow>
          (if module_class m = ListenAttendSpell then Inr ''las''
           else if module_class m = SpeechTransformer then Inr ''transformer''
           else if module_class m = DeepSpeech2 then Inr ''deepspeech2''
           else Inl (Unsupported_architecture_class (module_class m)))
      | Module m \<Rightarrow>
          (if module_class m = ListenAttendSpell then Inr ''las''
           else if module_class m = SpeechTransformer then Inr ''transformer''
           else if module_class m = DeepSpeech2 then Inr ''deepspeech2''
           else Inl (Unsupported_architecture_class (module_class m))))"

text \<open>Lines 56 and 57: \<^verbatim>\<open>model.eval()\<close> and \<^verbatim>\<open>model.to(device)\<close>.\<close>

definition model_eval :: "model \<Rightarrow> model" where
  "model_eval mdl =
     (case mdl of
        DataParallel m \<Rightarrow> DataParallel (m\<lparr>training := False\<rparr>)
      | Module m \<Rightarrow> Module (m\<lparr>training := False\<rparr>))"

definition model_to :: "model \<Rightarrow> string \<Rightarrow> model" where
  "model_to mdl device =
     (case mdl of
        DataParallel m \<Rightarrow> DataParallel (m\<lparr>device_of := device\<rparr>)
      | Module m \<Rightarrow> Module (m\<lparr>device_of := device\<rparr>))"

text \<open>Lines 67 to 74: the arguments of the call of \<^verbatim>\<open>model.inference\<close> that the tag selects.\<close>

definition dispatch :: "string \<Rightarrow> vocab \<Rightarrow> features list \<Rightarrow> int list \<Rightarrow> string \<Rightarrow> error + inference_args" where
  "dispatch architecture v inps lens device =
     (if architecture = ''las'' then Inr (Args_device inps lens device)
      else if architecture = ''transformer'' then Inr (Args_plain inps lens)
      else if architecture = ''deepspeech2'' then Inr (Args_blank_label inps lens (int (len v)))
      else Inl (Unsupported_architecture_tag architecture))"

text \<open>
  Lines 76 to 82, the loop over \<^verbatim>\<open>range(targets.size(0))\<close>: the target string is appended
  first; then \<^verbatim>\<open>hypothesis[idx]\<close> is read, which raises \<^verbatim>\<open>IndexError\<close> when the
  hypothesis has no row \<^verbatim>\<open>idx\<close>.
\<close>

fun append_results ::
  "labels \<Rightarrow> labels \<Rightarrow> nat list \<Rightarrow> ('ms, 'z) GreedySearch_scheme \<Rightarrow>
   error option \<times> ('ms, 'z) GreedySearch_scheme" where
  "append_results tgts hyp [] s = (None, s)"
| "append_results tgts hyp (idx # idxs) s =
     (let s1 = s\<lparr>target_list := target_list s @ [label_to_string (vocab s) (tgts ! idx)]\<rparr>
      in if idx < length hyp then
           append_results tgts hyp idxs
             (s1\<lparr>predict_list := predict_list s1 @ [label_to_string (vocab s1) (hyp ! idx)]\<rparr>)
         else (Some IndexError, s1))"

text \<open>
  Lines 64 to 90, the body of the loop for a batch that is not the sentinel. The result is
  the error raised or the new values of the local variables, and the world as the body
  leaves it. In the branch that the tag selects, \<^verbatim>\<open>model.inference\<close> is looked up on
  \<^verbatim>\<open>model\<close> itself (lines 68, 70 and 72), not on \<^verbatim>\<open>model.module\<close>: for an
  \<^verbatim>\<open>nn.DataParallel\<close> wrapper the lookup raises \<^verbatim>\<open>AttributeError\<close> and no call is made.
  \<^verbatim>\<open>targets[:, 1:]\<close> drops the first label of every row.
\<close>

definition loop_body ::
  "'ms env \<Rightarrow> string \<Rightarrow> string \<Rightarrow> int \<Rightarrow> batch \<Rightarrow> locals \<Rightarrow>
   ('ms, 'z) GreedySearch_scheme world \<Rightarrow>
   (error + locals) \<times> ('ms, 'z) GreedySearch_scheme world" where
  "loop_body e architecture device print_every b l w =
     (case dispatch architecture (vocab (self w)) (inputs b) (input_lengths b) device of
        Inl err \<Rightarrow> (Inl err, w)
      | Inr args \<Rightarrow>
          (case model w of
             DataParallel _ \<Rightarrow> (Inl AttributeError, w)
           | Module _ \<Rightarrow>
               (let w1 = w\<lparr>inference_calls := inference_calls w @ [args]\<rparr> in
                case inference e (model w1) args of
                  Inl msg \<Rightarrow> (Inl (InferenceError msg), w1)
                | Inr hypothesis \<Rightarrow>
                    (case append_results (targets b) hypothesis [0..<length (targets b)] (self w1) of
                       (Some err, s1) \<Rightarrow> (Inl err, w1\<lparr>self := s1\<rparr>)
                     | (None, s1) \<Rightarrow>
                         (let (c, ms) = call_metric e (metric s1) (map tl (targets b)) hypothesis;
                              w2 = w1\<lparr>self := s1\<lparr>metric := (metric s1)\<lparr>rate_state := ms\<rparr>\<rparr>\<rparr>;
                              total = total_sent_num l + int (length (targets b))
                          in if print_every = 0 then (Inl ZeroDivisionError, w2)
                             else
                               (let w3 = (if timestep l mod print_every = 0
                                          then w2\<lparr>logger := logger w2 @ [c]\<rparr> else w2)
                                in (Inr \<lparr>cer = c, total_sent_num = total,
                                         timestep = timestep l + 1\<rparr>,
                                    w3)))))))"

text \<open>
  Lines 59 to 92, \<^verbatim>\<open>while True\<close>: the queue is the list of the batches it will deliver.
  \<^verbatim>\<open>queue.get()\<close> on the empty list blocks for ever: the outcome is \<open>None\<close>. The third
  component of the result is what is left in the queue.
\<close>

fun search_loop ::
  "'ms env \<Rightarrow> string \<Rightarrow> string \<Rightarrow> int \<Rightarrow> batch list \<Rightarrow> locals \<Rightarrow>
   ('ms, 'z) GreedySearch_scheme world \<Rightarrow>
   (error + real) option \<times> ('ms, 'z) GreedySearch_scheme world \<times> batch list" where
  "search_loop e architecture device print_every [] l w = (None, w, [])"
| "search_loop e architecture device print_every (b # queue) l w =
     (if length (inputs b) = 0 then (Some (Inr (cer l)), w, queue)
      else
        (case loop_body e architecture device print_every b l w of
           (Inl err, w1) \<Rightarrow> (Some (Inl err), w1, queue)
         | (Inr l1, w1) \<Rightarrow> search_loop e architecture device print_every queue l1 w1))"

text \<open>\<^verbatim>\<open>GreedySearch.search(self, model, queue, device, print_every)\<close>, lines 32 to 92.\<close>

definition GreedySearch_search ::
  "'ms env \<Rightarrow> ('ms, 'z) GreedySearch_scheme world \<Rightarrow> batch list \<Rightarrow> string \<Rightarrow> int \<Rightarrow>
   (error + real) option \<times> ('ms, 'z) GreedySearch_scheme world \<times> batch list" where
  "GreedySearch_search e w queue device print_every =
     (case identify (model w) of
        Inl err \<Rightarrow> (Some (Inl err), w, queue)
      | Inr architecture \<Rightarrow>
          search_loop e architecture device print_every queue
            \<lparr>cer = 0, total_sent_num = 0, timestep = 0\<rparr>
            (w\<lparr>model := model_to (model_eval (model w)) device\<rparr>))"

text \<open>
  The file system: the table written at each path (the columns by name), and the paths
  that can be opened for writing.
\<close>

record file_system =
  files :: "string \<rightharpoonup> (string \<times> string list) list"
  writable :: "string \<Rightarrow> bool"

text \<open>
  \<^verbatim>\<open>save_result(self, save_path)\<close>, lines 94 to 100: the two lists become the columns
  \<^verbatim>\<open>targets\<close> and \<^verbatim>\<open>predictions\<close> of a data frame, which is written at
  \<^verbatim>\<open>save_path\<close>. \<^verbatim>\<open>pd.DataFrame\<close> raises when the two columns differ in length, and
  \<^verbatim>\<open>to_csv\<close> when the path cannot be opened; nothing is written then. The result is the
  error raised, if any, \<^verbatim>\<open>self\<close> and the file system.
\<close>

definition save_result ::
  "('ms, 'z) GreedySearch_scheme \<Rightarrow> file_system \<Rightarrow> string \<Rightarrow>
   error option \<times> ('ms, 'z) GreedySearch_scheme \<times> file_system" where
  "save_result s fs save_path =
     (let results = [(''targets'', target_list s), (''predictions'', predict_list s)]
      in if length (target_list s) \<noteq> length (predict_list s) then (Some Unequal_columns, s, fs)
         else if \<not> writable fs save_path then (Some (OSError save_path), s, fs)
         else (None, s, fs\<lparr>files := (files fs)(save_path \<mapsto> results)\<rparr>))"

subsection \<open>\<^verbatim>\<open>BeamSearch.search\<close>\<close>

text \<open>
  Modelled from the spec: \<^verbatim>\<open>set_decoder\<close> of the model classes is not in the source file;
  the specification has every model "expose a way to swap its decoding stage
  (\<^verbatim>\<open>setDecoder(adapter)\<close>)", which replaces the decoder of the module.
\<close>

definition set_decoder :: "nn_module \<Rightarrow> decoder \<Rightarrow> nn_module" where
  "set_decoder m d = m\<lparr>decoder := d\<rparr>"

text \<open>\<^verbatim>\<open>BeamSearch.search(self, model, queue, device, print_every)\<close>, lines 109 to 116.\<close>

definition BeamSearch_search ::
  "'ms env \<Rightarrow> 'ms BeamSearch world \<Rightarrow> batch list \<Rightarrow> string \<Rightarrow> int \<Rightarrow>
   (error + real) option \<times> 'ms BeamSearch world \<times> batch list" where
  "BeamSearch_search e w queue device print_every =
     (case model w of
        DataParallel m \<Rightarrow>
          (let topk_decoder = TopKDecoder (decoder m) (k (self w))
           in GreedySearch_search e (w\<lparr>model := DataParallel (set_decoder m topk_decoder)\<rparr>)
                queue device print_every)
      | Module m \<Rightarrow>
          (let topk_decoder = TopKDecoder (decoder m) (k (self w))
           in GreedySearch_search e (w\<lparr>model := Module (set_decoder m topk_decoder)\<rparr>)
                queue device print_every))"

section \<open>The vocabulary of the properties\<close>

text \<open>
  The module behind a model, and the same model around another module: what the
  specification calls unwrapping a multi-device wrapper transparently.
\<close>

definition unwrapped :: "model \<Rightarrow> nn_module" where
  "unwrapped mdl = (case mdl of DataParallel m \<Rightarrow> m | Module m \<Rightarrow> m)"

definition with_module :: "model \<Rightarrow> nn_module \<Rightarrow> model" where
  "with_module mdl m = (case mdl of DataParallel _ \<Rightarrow> DataParallel m | Module _ \<Rightarrow> Module m)"

text \<open>
  The specification of beam search (section 4.3), in its words: construct a top-k decoding
  adapter around the decoding stage of the model, with beam width \<open>k\<close>, install it into
  the model, then delegate to the greedy loop.
\<close>

definition install_topk :: "int \<Rightarrow> model \<Rightarrow> model" where
  "install_topk k0 mdl =
     with_module mdl (set_decoder (unwrapped mdl) (TopKDecoder (decoder (unwrapped mdl)) k0))"

definition spec_BeamSearch_search ::
  "'ms env \<Rightarrow> 'ms BeamSearch world \<Rightarrow> batch list \<Rightarrow> string \<Rightarrow> int \<Rightarrow>
   (error + real) option \<times> 'ms BeamSearch world \<times> batch list" where
  "spec_BeamSearch_search e w queue device print_every =
     GreedySearch_search e (w\<lparr>model := install_topk (k (self w)) (model w)\<rparr>) queue device print_every"

text \<open>A model of a recognized architecture.\<close>

definition recognized :: "model \<Rightarrow> bool" where
  "recognized mdl = (module_class (unwrapped mdl) \<in> {ListenAttendSpell, SpeechTransformer, DeepSpeech2})"

text \<open>
  What \<^verbatim>\<open>model.inference\<close> returns for a batch in a search started in the world \<open>w\<close>
  (\<open>None\<close> when no call is made or the call raises), and the batches that a search
  decodes: the hypothesis has a row for every row of the targets, so that line 81 finds
  \<^verbatim>\<open>hypothesis[idx]\<close>.
\<close>

definition inference_result ::
  "'ms env \<Rightarrow> ('ms, 'z) GreedySearch_scheme world \<Rightarrow> string \<Rightarrow> batch \<Rightarrow> labels option" where
  "inference_result e w device b =
     (case identify (model w) of
        Inl _ \<Rightarrow> None
      | Inr architecture \<Rightarrow>
          (case dispatch architecture (vocab (self w)) (inputs b) (input_lengths b) device of
             Inl _ \<Rightarrow> None
           | Inr args \<Rightarrow>
               (case model w of
                  DataParallel _ \<Rightarrow> None
                | Module _ \<Rightarrow>
                    (case inference e (model_to (model_eval (model w)) device) args of
                       Inl _ \<Rightarrow> None
                     | Inr hypothesis \<Rightarrow> Some hypothesis))))"

definition decodes :: "'ms env \<Rightarrow> ('ms, 'z) GreedySearch_scheme world \<Rightarrow> string \<Rightarrow> batch \<Rightarrow> bool" where
  "decodes e w device b =
     (case inference_result e w device b of
        None \<Rightarrow> False
      | Some hypothesis \<Rightarrow> length (targets b) \<le> length hypothesis)"

text \<open>The same two notions inside the loop, where the tag is known.\<close>

definition hypothesis_at ::
  "'ms env \<Rightarrow> string \<Rightarrow> string \<Rightarrow> ('ms, 'z) GreedySearch_scheme world \<Rightarrow> batch \<Rightarrow> labels option" where
  "hypothesis_at e a d w b =
     (case dispatch a (vocab (self w)) (inputs b) (input_lengths b) d of
        Inl _ \<Rightarrow> None
      | Inr args \<Rightarrow>
          (case model w of
             DataParallel _ \<Rightarrow> None
           | Module _ \<Rightarrow> (case inference e (model w) args of Inl _ \<Rightarrow> None | Inr h \<Rightarrow> Some h)))"

definition decodable ::
  "'ms env \<Rightarrow> string \<Rightarrow> string \<Rightarrow> ('ms, 'z) GreedySearch_scheme world \<Rightarrow> batch \<Rightarrow> bool" where
  "decodable e a d w b =
     (case hypothesis_at e a d w b of None \<Rightarrow> False | Some h \<Rightarrow> length (targets b) \<le> length h)"

text \<open>The body of the loop run over a list of batches, stopping at the first error.\<close>

fun run_batches ::
  "'ms env \<Rightarrow> string \<Rightarrow> string \<Rightarrow> int \<Rightarrow> batch list \<Rightarrow> locals \<Rightarrow>
   ('ms, 'z) GreedySearch_scheme world \<Rightarrow>
   (error + locals) \<times> ('ms, 'z) GreedySearch_scheme world" where
  "run_batches e a d p [] l w = (Inr l, w)"
| "run_batches e a d p (b # bs) l w =
     (case loop_body e a d p b l w of
        (Inl err, w1) \<Rightarrow> (Inl err, w1)
      | (Inr l1, w1) \<Rightarrow> run_batches e a d p bs l1 w1)"

text \<open>By how many entries the target list is longer than the prediction list.\<close>

definition surplus :: "('ms, 'z) GreedySearch_scheme \<Rightarrow> int" where
  "surplus s = int (length (target_list s)) - int (length (predict_list s))"

text \<open>The value a search returned (0 when it did not return).\<close>

definition returned :: "(error + real) option \<times> 'w \<times> batch list \<Rightarrow> real" where
  "returned r = (case fst r of Some (Inr c) \<Rightarrow> c | _ \<Rightarrow> 0)"

text \<open>The inputs among the arguments of an inference call.\<close>

definition inputs_of :: "inference_args \<Rightarrow> features list" where
  "inputs_of args =
     (case args of
        Args_device inps _ _ \<Rightarrow> inps
      | Args_plain inps _ \<Rightarrow> inps
      | Args_blank_label inps _ _ \<Rightarrow> inps)"

text \<open>
  The data model of the specification: a batch holds one row of targets for every sample
  of its inputs, and the hypothesis that an inference returns holds one row for every
  sample of the inputs it was given.
\<close>

definition one_row_per_sample :: "'ms env \<Rightarrow> bool" where
  "one_row_per_sample e =
     (\<forall>mdl args h. inference e mdl args = Inr h \<longrightarrow> length h = length (inputs_of args))"

text \<open>
  The batches whose strings a search appends to the lists: those that come before the
  first sentinel and before the first batch that does not decode; when \<^verbatim>\<open>print_every\<close>
  is 0, only the first of them, as the modulo of line 87 raises at the end of its round.
\<close>

definition processed ::
  "'ms env \<Rightarrow> ('ms, 'z) GreedySearch_scheme world \<Rightarrow> string \<Rightarrow> int \<Rightarrow> batch list \<Rightarrow> batch list" where
  "processed e w device print_every queue =
     (let bs = takeWhile (\<lambda>b. inputs b \<noteq> [] \<and> decodes e w device b) queue
      in if print_every = 0 then take 1 bs else bs)"

text \<open>
  The tag of each recognized class and the arguments of its inference call, as the
  property C5 lists them: the device for \<^verbatim>\<open>ListenAttendSpell\<close>, inputs and lengths
  only for \<^verbatim>\<open>SpeechTransformer\<close>, the blank label \<^verbatim>\<open>len(vocab)\<close> for
  \<^verbatim>\<open>DeepSpeech2\<close>. (Another class has no tag and no call; its name and the plain
  arguments stand in.)
\<close>

definition tag_of :: "model_class \<Rightarrow> string" where
  "tag_of c =
     (case c of
        ListenAttendSpell \<Rightarrow> ''las''
      | SpeechTransformer \<Rightarrow> ''transformer''
      | DeepSpeech2 \<Rightarrow> ''deepspeech2''
      | OtherClass name \<Rightarrow> name)"

definition convention :: "model_class \<Rightarrow> vocab \<Rightarrow> string \<Rightarrow> batch \<Rightarrow> inference_args" where
  "convention c v device b =
     (case c of
        ListenAttendSpell \<Rightarrow> Args_device (inputs b) (input_lengths b) device
      | DeepSpeech2 \<Rightarrow> Args_blank_label (inputs b) (input_lengths b) (int (len v))
      | _ \<Rightarrow> Args_plain (inputs b) (input_lengths b))"

section \<open>Concrete inputs\<close>

text \<open>
  A vocabulary of two tokens; a metric that counts the target rows it has seen since it
  was built (so its value depends on the earlier calls); a model whose inference returns
  one row of labels for every sample of the inputs.
\<close>

definition vocab0 :: vocab where
  "vocab0 = \<lparr>label_to_string = (\<lambda>ls. concat (map (\<lambda>i. if i = 1 then ''a'' else ''b'') ls)), len = 2\<rparr>"

definition env0 :: "nat env" where
  "env0 =
     \<lparr>new_metric = (\<lambda>_ _. 0),
      call_metric = (\<lambda>m t h. (real (rate_state m + length t), rate_state m + length t)),
      inference = (\<lambda>mdl args. Inr (map (\<lambda>_. [1, 2]) (inputs_of args)))\<rparr>"

definition las0 :: nn_module where
  "las0 = \<lparr>module_class = ListenAttendSpell, decoder = Decoder ''speller'',
           training = True, device_of = ''cpu''\<rparr>"

definition greedy0 :: "nat GreedySearch" where
  "greedy0 = \<lparr>target_list = [], predict_list = [], vocab = vocab0,
              metric = CharacterErrorRate env0 vocab0\<rparr>"

definition beam0 :: "nat BeamSearch" where
  "beam0 = \<lparr>target_list = [], predict_list = [], vocab = vocab0,
            metric = CharacterErrorRate env0 vocab0, k = 3\<rparr>"

definition world0 :: "nat GreedySearch world" where
  "world0 = \<lparr>self = greedy0, model = Module las0, logger = [], inference_calls = []\<rparr>"

definition beam_world0 :: "nat BeamSearch world" where
  "beam_world0 = \<lparr>self = beam0, model = DataParallel las0, logger = [], inference_calls = []\<rparr>"

definition sentinel :: batch where
  "sentinel = \<lparr>inputs = [], targets = [], input_lengths = [], target_lengths = []\<rparr>"

definition batch1 :: batch where
  "batch1 = \<lparr>inputs = [[[1]]], targets = [[0, 1]], input_lengths = [1], target_lengths = [2]\<rparr>"

definition batch2 :: batch where
  "batch2 = \<lparr>inputs = [[[1]], [[2]]], targets = [[0, 1], [0, 2]],
             input_lengths = [1, 1], target_lengths = [2, 2]\<rparr>"

text \<open>A batch with one sample in the inputs and two rows of targets.\<close>

definition mismatched :: batch where
  "mismatched = \<lparr>inputs = [[[1]]], targets = [[0, 1], [0, 2]],
                 input_lengths = [1], target_lengths = [2, 2]\<rparr>"


text \<open>Modules of the two other recognized classes.\<close>

definition transformer0 :: nn_module where
  "transformer0 = las0\<lparr>module_class := SpeechTransformer\<rparr>"

definition deepspeech0 :: nn_module where
  "deepspeech0 = las0\<lparr>module_class := DeepSpeech2\<rparr>"






text \<open>A beam strategy with a bare model, and the greedy strategy with a wrapped one.\<close>

definition bare_beam_world0 :: "nat BeamSearch world" where
  "bare_beam_world0 = \<lparr>self = beam0, model = Module las0, logger = [], inference_calls = []\<rparr>"

definition wrapped_world0 :: "nat GreedySearch world" where
  "wrapped_world0 = \<lparr>self = greedy0, model = DataParallel las0, logger = [], inference_calls = []\<rparr>"

text \<open>A file system with no file, where every path but the empty one can be written.\<close>

definition fs0 :: file_system where
  "fs0 = \<lparr>files = Map.empty, writable = (\<lambda>path. path \<noteq> [])\<rparr>"

text \<open>The collaborators of \<open>env0\<close> with an inference that always raises.\<close>

definition failing_env :: "nat env" where
  "failing_env = env0\<lparr>inference := (\<lambda>mdl args. Inl ''out of memory'')\<rparr>"

section \<open>Auxiliary lemmas\<close>

lemma identify_recognized:
  "recognized mdl \<Longrightarrow> \<exists>a. identify mdl = Inr a \<and> a \<in> {''las'', ''transformer'', ''deepspeech2''}"
  by (auto simp: recognized_def unwrapped_def identify_def split: model.splits)

lemma identify_unrecognized:
  "\<not> recognized mdl \<Longrightarrow> identify mdl = Inl (Unsupported_architecture_class (module_class (unwrapped mdl)))"
  by (auto simp: recognized_def unwrapped_def identify_def split: model.splits)

lemma append_results_inv:
  "append_results tgts hyp idxs s = (r, s') \<Longrightarrow>
     vocab s' = vocab s \<and> metric s' = metric s \<and> GreedySearch.more s' = GreedySearch.more s"
  by (induction idxs arbitrary: s) (auto simp: Let_def split: if_splits)

lemma append_results_ok:
  "\<forall>i\<in>set idxs. i < length hyp \<Longrightarrow>
   append_results tgts hyp idxs s =
     (None, s\<lparr>target_list := target_list s @ map (\<lambda>i. label_to_string (vocab s) (tgts ! i)) idxs,
              predict_list := predict_list s @ map (\<lambda>i. label_to_string (vocab s) (hyp ! i)) idxs\<rparr>)"
  by (induction idxs arbitrary: s) (auto simp: Let_def)

lemma append_results_all:
  assumes "length tgts \<le> length hyp"
  shows "append_results tgts hyp [0..<length tgts] s =
     (None, s\<lparr>target_list := target_list s @ map (label_to_string (vocab s)) tgts,
              predict_list := predict_list s @ map (label_to_string (vocab s)) (take (length tgts) hyp)\<rparr>)"
proof -
  have a: "\<forall>i\<in>set [0..<length tgts]. i < length hyp" using assms by auto
  have t: "map (\<lambda>i. label_to_string (vocab s) (tgts ! i)) [0..<length tgts] = map (label_to_string (vocab s)) tgts"
    by (rule nth_equalityI) simp_all
  have h: "map (\<lambda>i. label_to_string (vocab s) (hyp ! i)) [0..<length tgts] = map (label_to_string (vocab s)) (take (length tgts) hyp)"
    using assms by (intro nth_equalityI) simp_all
  show ?thesis using append_results_ok[OF a, of tgts s] by (simp add: t h)
qed

lemma surplus_both:
  "surplus (s\<lparr>target_list := target_list s @ [x], predict_list := predict_list s @ [y]\<rparr>) = surplus s"
  by (simp add: surplus_def)

lemma surplus_target:
  "surplus (s\<lparr>target_list := target_list s @ [x]\<rparr>) = surplus s + 1"
  by (simp add: surplus_def)

lemma append_results_surplus:
  "append_results tgts hyp idxs s = (r, s') \<Longrightarrow>
     (case r of None \<Rightarrow> surplus s' = surplus s | Some err \<Rightarrow> err = IndexError \<and> surplus s' = surplus s + 1)"
proof (induction idxs arbitrary: s)
  case Nil
  then show ?case by simp
next
  case (Cons idx idxs)
  show ?case
  proof (cases "idx < length hyp")
    case True
    with Cons.prems have "append_results tgts hyp idxs
        (s\<lparr>target_list := target_list s @ [label_to_string (vocab s) (tgts ! idx)],
           predict_list := predict_list s @ [label_to_string (vocab s) (hyp ! idx)]\<rparr>) = (r, s')"
      by (simp add: Let_def)
    from Cons.IH[OF this] show ?thesis by (simp only: surplus_both)
  next
    case False
    with Cons.prems show ?thesis by (auto simp: Let_def surplus_target)
  qed
qed

lemma inference_result_eq:
  "identify (model w) = Inr a \<Longrightarrow>
   inference_result e w d b = hypothesis_at e a d (w\<lparr>model := model_to (model_eval (model w)) d\<rparr>) b"
  by (simp add: inference_result_def hypothesis_at_def model_to_def model_eval_def
      split: sum.splits model.splits)

lemma hypothesis_at_cong:
  "model w' = model w \<Longrightarrow> vocab (self w') = vocab (self w) \<Longrightarrow>
   hypothesis_at e a d w' b = hypothesis_at e a d w b"
  by (simp add: hypothesis_at_def split: sum.splits model.splits)

lemma loop_body_inv:
  "loop_body e a d p b l w = (r, w') \<Longrightarrow>
     model w' = model w \<and> vocab (self w') = vocab (self w) \<and>
     kind (metric (self w')) = kind (metric (self w)) \<and>
     rate_vocab (metric (self w')) = rate_vocab (metric (self w)) \<and>
     GreedySearch.more (self w') = GreedySearch.more (self w)"
  by (auto simp: loop_body_def Let_def
      split: sum.splits prod.splits option.splits if_splits model.splits
      dest: append_results_inv)

lemma loop_body_ok:
  assumes "p \<noteq> 0" and "hypothesis_at e a d w b = Some h" and "length (targets b) \<le> length h"
  shows "\<exists>l1 w1. loop_body e a d p b l w = (Inr l1, w1) \<and>
           cer l1 = fst (call_metric e (metric (self w)) (map tl (targets b)) h) \<and>
           timestep l1 = timestep l + 1 \<and>
           logger w1 = logger w @ (if timestep l mod p = 0 then [cer l1] else []) \<and>
           target_list (self w1) =
             target_list (self w) @ map (label_to_string (vocab (self w))) (targets b) \<and>
           predict_list (self w1) =
             predict_list (self w) @
               map (label_to_string (vocab (self w))) (take (length (targets b)) h) \<and>
           metric (self w1) =
             (metric (self w))\<lparr>rate_state := snd (call_metric e (metric (self w)) (map tl (targets b)) h)\<rparr>"
proof -
  from assms(2) obtain args m where
    d: "dispatch a (vocab (self w)) (inputs b) (input_lengths b) d = Inr args" and
    m: "model w = Module m" and
    i: "inference e (Module m) args = Inr h"
    by (auto simp: hypothesis_at_def split: sum.splits model.splits)
  show ?thesis
    using assms(1)
    by (auto simp add: loop_body_def d m i Let_def append_results_all[OF assms(3)] split: prod.splits)
qed

lemma loop_body_calls:
  "dispatch a (vocab (self w)) (inputs b) (input_lengths b) d = Inr args \<Longrightarrow>
   model w = Module m \<Longrightarrow>
   inference_calls (snd (loop_body e a d p b l w)) = inference_calls w @ [args]"
  by (simp add: loop_body_def Let_def split: sum.splits prod.splits option.splits)

lemma loop_body_errors:
  "loop_body e a d p b l w = (Inl err, w') \<Longrightarrow>
     (err = Unsupported_architecture_tag a \<and> a \<noteq> ''las'' \<and> a \<noteq> ''transformer'' \<and> a \<noteq> ''deepspeech2'')
     \<or> err = IndexError \<or> err = ZeroDivisionError \<or> err = AttributeError
     \<or> (\<exists>msg. err = InferenceError msg)"
  by (auto simp: loop_body_def dispatch_def Let_def
      split: sum.splits prod.splits option.splits if_splits model.splits
      dest: append_results_surplus)

lemma decodable_cong:
  "model w' = model w \<Longrightarrow> vocab (self w') = vocab (self w) \<Longrightarrow>
   decodable e a d w' b = decodable e a d w b"
  using hypothesis_at_cong[of w' w e a d b] by (simp add: decodable_def)

lemma decodes_eq:
  "identify (model w) = Inr a \<Longrightarrow>
   decodes e w d b = decodable e a d (w\<lparr>model := model_to (model_eval (model w)) d\<rparr>) b"
  using inference_result_eq[of w a e d b] by (simp add: decodes_def decodable_def)

lemma decodes_identify: "decodes e w d b \<Longrightarrow> \<exists>a. identify (model w) = Inr a"
  by (auto simp: decodes_def inference_result_def split: sum.splits option.splits)

lemma search_loop_append:
  "\<forall>b\<in>set bs. inputs b \<noteq> [] \<Longrightarrow> run_batches e a d p bs l w = (Inr l1, w1) \<Longrightarrow>
   search_loop e a d p (bs @ q) l w = search_loop e a d p q l1 w1"
proof (induction bs arbitrary: l w)
  case Nil
  then show ?case by simp
next
  case (Cons b bs)
  obtain r w2 where lb: "loop_body e a d p b l w = (r, w2)" by (cases "loop_body e a d p b l w")
  show ?case
  proof (cases r)
    case (Inl err)
    with Cons.prems(2) lb show ?thesis by simp
  next
    case (Inr l2)
    with Cons.prems lb have "run_batches e a d p bs l2 w2 = (Inr l1, w1)" by simp
    moreover from Cons.prems have "\<forall>b\<in>set bs. inputs b \<noteq> []" by simp
    ultimately have "search_loop e a d p (bs @ q) l2 w2 = search_loop e a d p q l1 w1"
      by (rule Cons.IH[rotated])
    with Cons.prems(1) lb Inr show ?thesis by simp
  qed
qed

lemma run_batches_snoc:
  "run_batches e a d p (bs @ [b]) l w =
     (case run_batches e a d p bs l w of
        (Inl err, w1) \<Rightarrow> (Inl err, w1)
      | (Inr l1, w1) \<Rightarrow> loop_body e a d p b l1 w1)"
proof (induction bs arbitrary: l w)
  case Nil
  show ?case by (cases "loop_body e a d p b l w") (simp split: sum.splits)
next
  case (Cons x bs)
  obtain r w2 where lb: "loop_body e a d p x l w = (r, w2)" by (cases "loop_body e a d p x l w")
  show ?case
  proof (cases r)
    case (Inl err)
    with lb show ?thesis by simp
  next
    case (Inr l2)
    with lb Cons.IH[of l2 w2] show ?thesis by simp
  qed
qed

lemma BeamSearch_search_unfold:
  "BeamSearch_search e w queue device print_every =
     GreedySearch_search e (w\<lparr>model := install_topk (k (self w)) (model w)\<rparr>) queue device print_every"
  by (simp add: BeamSearch_search_def install_topk_def with_module_def unwrapped_def
      split: model.split)

lemma run_batches_ok:
  assumes "p \<noteq> 0"
  shows "\<forall>b\<in>set bs. decodable e a d w b \<Longrightarrow>
    \<exists>l1 w1. run_batches e a d p bs l w = (Inr l1, w1) \<and>
      timestep l1 = timestep l + int (length bs) \<and>
      model w1 = model w \<and> vocab (self w1) = vocab (self w) \<and>
      target_list (self w1) =
        target_list (self w) @
          concat (map (\<lambda>b. map (label_to_string (vocab (self w))) (targets b)) bs) \<and>
      predict_list (self w1) =
        predict_list (self w) @
          concat (map (\<lambda>b. map (label_to_string (vocab (self w)))
                              (take (length (targets b)) (the (hypothesis_at e a d w b)))) bs)"
proof (induction bs arbitrary: l w)
  case Nil
  then show ?case by simp
next
  case (Cons b bs)
  from Cons.prems obtain h where h: "hypothesis_at e a d w b = Some h" "length (targets b) \<le> length h"
    by (auto simp: decodable_def split: option.splits)
  from loop_body_ok[OF assms h, of l] obtain l1 w1 where
    lb: "loop_body e a d p b l w = (Inr l1, w1)" and
    t: "timestep l1 = timestep l + 1" and
    tl: "target_list (self w1) =
             target_list (self w) @ map (label_to_string (vocab (self w))) (targets b)" and
    pl: "predict_list (self w1) =
             predict_list (self w) @
               map (label_to_string (vocab (self w))) (take (length (targets b)) h)"
    by blast
  from loop_body_inv[OF lb] have inv: "model w1 = model w" "vocab (self w1) = vocab (self w)"
    by simp_all
  have "\<forall>x\<in>set bs. decodable e a d w1 x"
    using Cons.prems decodable_cong[OF inv] by simp
  from Cons.IH[OF this, of l1] obtain l2 w2 where
    r: "run_batches e a d p bs l1 w1 = (Inr l2, w2)" and
    r2: "timestep l2 = timestep l1 + int (length bs)" "model w2 = model w1"
       "vocab (self w2) = vocab (self w1)"
       "target_list (self w2) =
        target_list (self w1) @
          concat (map (\<lambda>b. map (label_to_string (vocab (self w1))) (targets b)) bs)"
       "predict_list (self w2) =
        predict_list (self w1) @
          concat (map (\<lambda>b. map (label_to_string (vocab (self w1)))
                              (take (length (targets b)) (the (hypothesis_at e a d w1 b)))) bs)"
    by blast
  have hc: "\<And>x. hypothesis_at e a d w1 x = hypothesis_at e a d w x"
    by (rule hypothesis_at_cong[OF inv])
  have "run_batches e a d p (b # bs) l w = (Inr l2, w2)" using lb r by simp
  moreover have "timestep l2 = timestep l + int (length (b # bs))" using r2(1) t by simp
  moreover have "model w2 = model w" using r2(2) inv by simp
  moreover have "vocab (self w2) = vocab (self w)" using r2(3) inv by simp
  moreover have "target_list (self w2) =
        target_list (self w) @
          concat (map (\<lambda>b. map (label_to_string (vocab (self w))) (targets b)) (b # bs))"
    using r2(4) tl inv by simp
  moreover have "predict_list (self w2) =
        predict_list (self w) @
          concat (map (\<lambda>b. map (label_to_string (vocab (self w)))
                              (take (length (targets b)) (the (hypothesis_at e a d w b)))) (b # bs))"
    using r2(5) pl inv h(1) by (simp add: hc)
  ultimately show ?case by blast
qed

lemma search_run:
  assumes "identify (model w) = Inr a" and "\<forall>b\<in>set bs. inputs b \<noteq> []" and "inputs s = []"
    and "run_batches e a d p bs \<lparr>cer = 0, total_sent_num = 0, timestep = 0\<rparr>
           (w\<lparr>model := model_to (model_eval (model w)) d\<rparr>) = (Inr l1, w1)"
  shows "GreedySearch_search e w (bs @ s # rest) d p = (Some (Inr (cer l1)), w1, rest)"
  using assms search_loop_append[OF assms(2) assms(4), of "s # rest"]
  by (simp add: GreedySearch_search_def)

lemma search_prefix:
  assumes p: "p \<noteq> 0" and a: "identify (model w) = Inr a"
    and bs: "\<forall>x\<in>set bs. inputs x \<noteq> [] \<and> decodes e w d x" and s: "inputs s = []"
  shows "\<exists>l1 w1.
      run_batches e a d p bs \<lparr>cer = 0, total_sent_num = 0, timestep = 0\<rparr>
        (w\<lparr>model := model_to (model_eval (model w)) d\<rparr>) = (Inr l1, w1) \<and>
      (\<forall>rest. GreedySearch_search e w (bs @ s # rest) d p = (Some (Inr (cer l1)), w1, rest)) \<and>
      timestep l1 = int (length bs) \<and>
      model w1 = model_to (model_eval (model w)) d \<and> vocab (self w1) = vocab (self w) \<and>
      target_list (self w1) =
        target_list (self w) @
          concat (map (\<lambda>b. map (label_to_string (vocab (self w))) (targets b)) bs) \<and>
      predict_list (self w1) =
        predict_list (self w) @
          concat (map (\<lambda>b. map (label_to_string (vocab (self w)))
                              (take (length (targets b)) (the (inference_result e w d b)))) bs)"
proof -
  let ?w0 = "w\<lparr>model := model_to (model_eval (model w)) d\<rparr>"
  let ?l0 = "\<lparr>cer = 0, total_sent_num = 0, timestep = 0\<rparr>"
  have dec: "\<forall>b\<in>set bs. decodable e a d ?w0 b"
    using bs decodes_eq[OF a, of e d] by simp
  have ne: "\<forall>b\<in>set bs. inputs b \<noteq> []" using bs by simp
  have ir: "\<And>b. hypothesis_at e a d ?w0 b = inference_result e w d b"
    using inference_result_eq[OF a, of e d] by simp
  from run_batches_ok[OF p dec, of ?l0] obtain l1 w1 where
    r: "run_batches e a d p bs ?l0 ?w0 = (Inr l1, w1)" and
    r2: "timestep l1 = timestep ?l0 + int (length bs)" "model w1 = model ?w0"
      "vocab (self w1) = vocab (self ?w0)"
      "target_list (self w1) =
        target_list (self ?w0) @
          concat (map (\<lambda>b. map (label_to_string (vocab (self ?w0))) (targets b)) bs)"
      "predict_list (self w1) =
        predict_list (self ?w0) @
          concat (map (\<lambda>b. map (label_to_string (vocab (self ?w0)))
                              (take (length (targets b)) (the (hypothesis_at e a d ?w0 b)))) bs)"
    by blast
  have "\<forall>rest. GreedySearch_search e w (bs @ s # rest) d p = (Some (Inr (cer l1)), w1, rest)"
    using search_run[OF a ne s r] by simp
  then show ?thesis using r r2 by (simp add: ir)
qed

lemma search_no_batches_logger:
  "inputs s = [] \<Longrightarrow> logger (fst (snd (GreedySearch_search e w (s # rest) d p))) = logger w"
  by (simp add: GreedySearch_search_def split: sum.splits)

lemma logger_after_search:
  assumes p: "0 < p" and s: "inputs s = []"
  shows "\<forall>x\<in>set bs. inputs x \<noteq> [] \<and> decodes e w d x \<Longrightarrow>
     logger (fst (snd (GreedySearch_search e w (bs @ s # rest) d p))) =
       logger w @
         map (\<lambda>i. returned (GreedySearch_search e w (take (Suc i) bs @ [s]) d p))
           (filter (\<lambda>i. int i mod p = 0) [0..<length bs])"
proof (induction bs arbitrary: rest rule: rev_induct)
  case Nil
  show ?case using search_no_batches_logger[OF s] by simp
next
  case (snoc x xs)
  let ?w0 = "w\<lparr>model := model_to (model_eval (model w)) d\<rparr>"
  let ?l0 = "\<lparr>cer = 0, total_sent_num = 0, timestep = 0\<rparr>"
  have p0: "p \<noteq> 0" using p by simp
  have xs: "\<forall>y\<in>set xs. inputs y \<noteq> [] \<and> decodes e w d y" using snoc.prems by simp
  have x: "decodes e w d x" using snoc.prems by simp
  from decodes_identify[OF x] obtain a where a: "identify (model w) = Inr a" by blast
  from search_prefix[OF p0 a xs s] obtain l1 w1 where
    r1: "run_batches e a d p xs ?l0 ?w0 = (Inr l1, w1)" and
    g1: "\<forall>rest. GreedySearch_search e w (xs @ s # rest) d p = (Some (Inr (cer l1)), w1, rest)" and
    t1: "timestep l1 = int (length xs)" and
    inv: "model w1 = model_to (model_eval (model w)) d" "vocab (self w1) = vocab (self w)"
    by blast
  from search_prefix[OF p0 a snoc.prems s] obtain l2 w2 where
    r2: "run_batches e a d p (xs @ [x]) ?l0 ?w0 = (Inr l2, w2)" and
    g2: "\<forall>rest. GreedySearch_search e w ((xs @ [x]) @ s # rest) d p = (Some (Inr (cer l2)), w2, rest)"
    by blast
  have lb: "loop_body e a d p x l1 w1 = (Inr l2, w2)"
    using r2 by (simp add: run_batches_snoc r1)
  have "decodable e a d ?w0 x" using x decodes_eq[OF a, of e d x] by simp
  moreover have "decodable e a d w1 x = decodable e a d ?w0 x"
    by (rule decodable_cong) (simp_all add: inv)
  ultimately obtain h where h: "hypothesis_at e a d w1 x = Some h" "length (targets x) \<le> length h"
    by (auto simp: decodable_def split: option.splits)
  from loop_body_ok[OF p0 h, of l1] lb
  have lg: "logger w2 = logger w1 @ (if timestep l1 mod p = 0 then [cer l2] else [])"
    by auto
  have ih: "logger w1 = logger w @
         map (\<lambda>i. returned (GreedySearch_search e w (take (Suc i) xs @ [s]) d p))
           (filter (\<lambda>i. int i mod p = 0) [0..<length xs])"
    using snoc.IH[OF xs, of "[]"] g1 by simp
  have m: "map (\<lambda>i. returned (GreedySearch_search e w (take (Suc i) xs @ [s]) d p))
           (filter (\<lambda>i. int i mod p = 0) [0..<length xs]) =
        map (\<lambda>i. returned (GreedySearch_search e w (take (Suc i) (xs @ [x]) @ [s]) d p))
           (filter (\<lambda>i. int i mod p = 0) [0..<length xs])"
    by (rule map_cong) (auto simp: Suc_le_eq)
  have last: "returned (GreedySearch_search e w (take (Suc (length xs)) (xs @ [x]) @ [s]) d p) = cer l2"
    using g2 by (simp add: returned_def)
  have "logger (fst (snd (GreedySearch_search e w ((xs @ [x]) @ s # rest) d p))) = logger w2"
    using g2 by simp
  also have "\<dots> = logger w @
         map (\<lambda>i. returned (GreedySearch_search e w (take (Suc i) (xs @ [x]) @ [s]) d p))
           (filter (\<lambda>i. int i mod p = 0) [0..<length (xs @ [x])])"
    using lg ih m last t1 by simp
  finally show ?case .
qed

lemma identify_tag:
  "identify mdl = Inr a \<Longrightarrow> a = ''las'' \<or> a = ''transformer'' \<or> a = ''deepspeech2''"
  by (auto simp: identify_def split: model.splits if_splits)

lemma dispatch_tag:
  "a = ''las'' \<or> a = ''transformer'' \<or> a = ''deepspeech2'' \<Longrightarrow> dispatch a v i n dv \<noteq> Inl err"
  by (auto simp: dispatch_def)

lemma search_loop_errors:
  assumes a: "a = ''las'' \<or> a = ''transformer'' \<or> a = ''deepspeech2''"
  shows "fst (search_loop e a d p q l w) = Some (Inl err) \<Longrightarrow>
     err = IndexError \<or> err = ZeroDivisionError \<or> err = AttributeError \<or>
     (\<exists>msg. err = InferenceError msg)"
proof (induction q arbitrary: l w)
  case Nil
  then show ?case by simp
next
  case (Cons b q)
  show ?case
  proof (cases "inputs b = []")
    case True
    with Cons.prems show ?thesis by simp
  next
    case False
    obtain r w2 where lb: "loop_body e a d p b l w = (r, w2)" by (cases "loop_body e a d p b l w")
    show ?thesis
    proof (cases r)
      case (Inl err')
      with Cons.prems lb False have "err' = err" by simp
      with loop_body_errors[of e a d p b l w err w2] lb Inl a show ?thesis by auto
    next
      case (Inr l2)
      with Cons.prems lb False have "fst (search_loop e a d p q l2 w2) = Some (Inl err)" by simp
      then show ?thesis by (rule Cons.IH)
    qed
  qed
qed

lemma search_errors:
  "fst (GreedySearch_search e w q d p) = Some (Inl err) \<Longrightarrow>
     err = Unsupported_architecture_class (module_class (unwrapped (model w))) \<or>
     err = IndexError \<or> err = ZeroDivisionError \<or> err = AttributeError \<or>
     (\<exists>msg. err = InferenceError msg)"
proof (cases "identify (model w)")
  case (Inl e1)
  assume "fst (GreedySearch_search e w q d p) = Some (Inl err)"
  with Inl have "e1 = err" by (simp add: GreedySearch_search_def)
  moreover have "\<not> recognized (model w)" using identify_recognized[of "model w"] Inl by auto
  ultimately show ?thesis using identify_unrecognized[of "model w"] Inl by simp
next
  case (Inr a)
  assume "fst (GreedySearch_search e w q d p) = Some (Inl err)"
  with Inr have "fst (search_loop e a d p q \<lparr>cer = 0, total_sent_num = 0, timestep = 0\<rparr>
            (w\<lparr>model := model_to (model_eval (model w)) d\<rparr>)) = Some (Inl err)"
    by (simp add: GreedySearch_search_def)
  from search_loop_errors[OF identify_tag[OF Inr] this] show ?thesis by blast
qed

lemma search_no_batches_self:
  "inputs s = [] \<Longrightarrow> self (fst (snd (GreedySearch_search e w (s # rest) d p))) = self w"
  by (simp add: GreedySearch_search_def split: sum.splits)

lemma prefix_returns:
  assumes p: "p \<noteq> 0" and s: "inputs s = []"
    and bs: "\<forall>x\<in>set bs. inputs x \<noteq> [] \<and> decodes e w d x" and i: "i < length bs"
  shows "fst (GreedySearch_search e w (take (Suc i) bs @ [s]) d p) =
           Some (Inr (returned (GreedySearch_search e w (take (Suc i) bs @ [s]) d p)))"
proof -
  have "bs ! i \<in> set bs" using i by simp
  with bs have "decodes e w d (bs ! i)" by blast
  from decodes_identify[OF this] obtain a where a: "identify (model w) = Inr a" by blast
  have "\<forall>x\<in>set (take (Suc i) bs). inputs x \<noteq> [] \<and> decodes e w d x"
    using bs by (meson in_set_takeD)
  from search_prefix[OF p a this s] obtain l1 w1 where
    "run_batches e a d p (take (Suc i) bs) \<lparr>cer = 0, total_sent_num = 0, timestep = 0\<rparr>
        (w\<lparr>model := model_to (model_eval (model w)) d\<rparr>) = (Inr l1, w1)" and
    "\<forall>rest. GreedySearch_search e w (take (Suc i) bs @ s # rest) d p = (Some (Inr (cer l1)), w1, rest)"
    by blast
  then have "GreedySearch_search e w (take (Suc i) bs @ [s]) d p = (Some (Inr (cer l1)), w1, [])"
    by blast
  then show ?thesis by (simp add: returned_def)
qed

lemma search_lists:
  assumes p: "p \<noteq> 0" and s: "inputs s = []"
    and bs: "\<forall>x\<in>set bs. inputs x \<noteq> [] \<and> decodes e w d x"
  shows "target_list (self (fst (snd (GreedySearch_search e w (bs @ s # rest) d p)))) =
           target_list (self w) @
             concat (map (\<lambda>b. map (label_to_string (vocab (self w))) (targets b)) bs) \<and>
         predict_list (self (fst (snd (GreedySearch_search e w (bs @ s # rest) d p)))) =
           predict_list (self w) @
             concat (map (\<lambda>b. map (label_to_string (vocab (self w)))
                                 (take (length (targets b)) (the (inference_result e w d b)))) bs)"
proof (cases bs)
  case Nil
  then show ?thesis using search_no_batches_self[OF s, of e w rest d p] by simp
next
  case (Cons b bs')
  with bs have "decodes e w d b" by simp
  from decodes_identify[OF this] obtain a where a: "identify (model w) = Inr a" by blast
  from search_prefix[OF p a bs s] obtain l1 w1 where
    "run_batches e a d p bs \<lparr>cer = 0, total_sent_num = 0, timestep = 0\<rparr>
        (w\<lparr>model := model_to (model_eval (model w)) d\<rparr>) = (Inr l1, w1)" and
    g: "\<forall>rest. GreedySearch_search e w (bs @ s # rest) d p = (Some (Inr (cer l1)), w1, rest)" and
    l: "target_list (self w1) =
        target_list (self w) @
          concat (map (\<lambda>b. map (label_to_string (vocab (self w))) (targets b)) bs)"
      "predict_list (self w1) =
        predict_list (self w) @
          concat (map (\<lambda>b. map (label_to_string (vocab (self w)))
                              (take (length (targets b)) (the (inference_result e w d b)))) bs)"
    by blast
  from g have "fst (snd (GreedySearch_search e w (bs @ s # rest) d p)) = w1" by simp
  with l show ?thesis by simp
qed

lemma dispatch_inputs:
  "dispatch a v i n dv = Inr args \<Longrightarrow> inputs_of args = i"
  by (auto simp: dispatch_def inputs_of_def split: if_splits)

lemma hypothesis_at_rows:
  assumes "one_row_per_sample e" and "hypothesis_at e a d w b = Some h"
  shows "length h = length (inputs b)"
proof -
  from assms(2) obtain args m where
    d: "dispatch a (vocab (self w)) (inputs b) (input_lengths b) d = Inr args" and
    i: "inference e (model w) args = Inr h"
    by (auto simp: hypothesis_at_def split: sum.splits model.splits)
  from assms(1) i have "length h = length (inputs_of args)"
    unfolding one_row_per_sample_def by blast
  with dispatch_inputs[OF d] show ?thesis by simp
qed

lemma loop_body_decoded:
  assumes "hypothesis_at e a d w b = Some h" and "length (targets b) \<le> length h"
  shows "(p = 0 \<longrightarrow> fst (loop_body e a d p b l w) = Inl ZeroDivisionError) \<and>
         target_list (self (snd (loop_body e a d p b l w))) =
           target_list (self w) @ map (label_to_string (vocab (self w))) (targets b) \<and>
         predict_list (self (snd (loop_body e a d p b l w))) =
           predict_list (self w) @
             map (label_to_string (vocab (self w))) (take (length (targets b)) h)"
proof -
  from assms(1) obtain args m where
    d: "dispatch a (vocab (self w)) (inputs b) (input_lengths b) d = Inr args" and
    m: "model w = Module m" and
    i: "inference e (Module m) args = Inr h"
    by (auto simp: hypothesis_at_def split: sum.splits model.splits)
  show ?thesis
    by (simp add: loop_body_def d m i Let_def append_results_all[OF assms(2)] split: prod.splits)
qed

lemma loop_body_undecoded:
  assumes "hypothesis_at e a d w b = None"
  shows "(\<exists>err. fst (loop_body e a d p b l w) = Inl err) \<and>
         self (snd (loop_body e a d p b l w)) = self w"
  using assms
  by (auto simp: loop_body_def hypothesis_at_def Let_def split: sum.splits model.splits)

lemma search_loop_lists:
  assumes rows: "one_row_per_sample e"
  shows "\<forall>b\<in>set q. length (targets b) = length (inputs b) \<Longrightarrow>
    target_list (self (fst (snd (search_loop e a d p q l w)))) =
      target_list (self w) @
        concat (map (\<lambda>b. map (label_to_string (vocab (self w))) (targets b))
          (if p = 0 then take 1 (takeWhile (\<lambda>b. inputs b \<noteq> [] \<and> decodable e a d w b) q)
           else takeWhile (\<lambda>b. inputs b \<noteq> [] \<and> decodable e a d w b) q)) \<and>
    predict_list (self (fst (snd (search_loop e a d p q l w)))) =
      predict_list (self w) @
        concat (map (\<lambda>b. map (label_to_string (vocab (self w))) (the (hypothesis_at e a d w b)))
          (if p = 0 then take 1 (takeWhile (\<lambda>b. inputs b \<noteq> [] \<and> decodable e a d w b) q)
           else takeWhile (\<lambda>b. inputs b \<noteq> [] \<and> decodable e a d w b) q))"
proof (induction q arbitrary: l w)
  case Nil
  then show ?case by simp
next
  case (Cons b q)
  have wfb: "length (targets b) = length (inputs b)" using Cons.prems by simp
  have wfq: "\<forall>x\<in>set q. length (targets x) = length (inputs x)" using Cons.prems by simp
  show ?case
  proof (cases "inputs b = []")
    case True
    then show ?thesis by simp
  next
    case False
    show ?thesis
    proof (cases "hypothesis_at e a d w b")
      case None
      then have nd: "\<not> decodable e a d w b" by (simp add: decodable_def)
      from loop_body_undecoded[OF None, of p l] obtain err where
        lb: "fst (loop_body e a d p b l w) = Inl err" and
        sf: "self (snd (loop_body e a d p b l w)) = self w"
        by blast
      have "fst (snd (search_loop e a d p (b # q) l w)) = snd (loop_body e a d p b l w)"
        using False lb by (cases "loop_body e a d p b l w") simp
      then show ?thesis using sf nd by simp
    next
      case (Some h)
      have lh: "length h = length (inputs b)" by (rule hypothesis_at_rows[OF rows Some])
      then have le: "length (targets b) \<le> length h" and tk: "take (length (targets b)) h = h"
        using wfb by simp_all
      have dc: "decodable e a d w b" using Some le by (simp add: decodable_def)
      show ?thesis
      proof (cases "p = 0")
        case True
        from loop_body_decoded[OF Some le, of p l] True have
          lb: "fst (loop_body e a d p b l w) = Inl ZeroDivisionError" and
          tl: "target_list (self (snd (loop_body e a d p b l w))) =
                 target_list (self w) @ map (label_to_string (vocab (self w))) (targets b)" and
          pl: "predict_list (self (snd (loop_body e a d p b l w))) =
                 predict_list (self w) @ map (label_to_string (vocab (self w))) h"
          by (simp_all add: tk)
        have "fst (snd (search_loop e a d p (b # q) l w)) = snd (loop_body e a d p b l w)"
          using False lb by (cases "loop_body e a d p b l w") simp
        then show ?thesis using tl pl dc False True Some by simp
      next
        case p: False
        from loop_body_ok[OF p Some le, of l] obtain l1 w1 where
          lb: "loop_body e a d p b l w = (Inr l1, w1)" and
          tl: "target_list (self w1) =
                 target_list (self w) @ map (label_to_string (vocab (self w))) (targets b)" and
          pl: "predict_list (self w1) =
                 predict_list (self w) @
                   map (label_to_string (vocab (self w))) (take (length (targets b)) h)"
          by blast
        from loop_body_inv[OF lb] have inv: "model w1 = model w" "vocab (self w1) = vocab (self w)"
          by simp_all
        have hc: "\<And>x. hypothesis_at e a d w1 x = hypothesis_at e a d w x"
          by (rule hypothesis_at_cong[OF inv])
        have dcc: "\<And>x. decodable e a d w1 x = decodable e a d w x"
          by (rule decodable_cong[OF inv])
        have sl: "search_loop e a d p (b # q) l w = search_loop e a d p q l1 w1"
          using False lb by simp
        from Cons.IH[OF wfq, of l1 w1] show ?thesis
          using p False dc Some unfolding sl by (simp add: tl pl tk inv hc dcc)
      qed
    qed
  qed
qed

lemma search_lists_all:
  assumes rows: "one_row_per_sample e"
    and wf: "\<forall>b\<in>set q. length (targets b) = length (inputs b)"
  shows "target_list (self (fst (snd (GreedySearch_search e w q d p)))) =
           target_list (self w) @
             concat (map (\<lambda>b. map (label_to_string (vocab (self w))) (targets b))
               (processed e w d p q)) \<and>
         predict_list (self (fst (snd (GreedySearch_search e w q d p)))) =
           predict_list (self w) @
             concat (map (\<lambda>b. map (label_to_string (vocab (self w)))
                                 (the (inference_result e w d b)))
               (processed e w d p q))"
proof (cases "identify (model w)")
  case (Inl err)
  then have "\<And>b. \<not> decodes e w d b" by (simp add: decodes_def inference_result_def)
  then have "processed e w d p q = []" by (cases q) (simp_all add: processed_def Let_def)
  then show ?thesis using Inl by (simp add: GreedySearch_search_def)
next
  case (Inr a)
  let ?w0 = "w\<lparr>model := model_to (model_eval (model w)) d\<rparr>"
  have dq: "\<And>b. decodable e a d ?w0 b = decodes e w d b"
    using decodes_eq[OF Inr, of e d] by simp
  have hq: "\<And>b. hypothesis_at e a d ?w0 b = inference_result e w d b"
    using inference_result_eq[OF Inr, of e d] by simp
  from search_loop_lists[OF rows wf, of a d p "\<lparr>cer = 0, total_sent_num = 0, timestep = 0\<rparr>" ?w0]
  show ?thesis using Inr
    by (simp add: GreedySearch_search_def processed_def dq hq Let_def)
qed

lemma processed_rows:
  assumes rows: "one_row_per_sample e"
    and wf: "\<forall>b\<in>set q. length (targets b) = length (inputs b)"
    and b: "b \<in> set (processed e w d p q)"
  shows "inputs b \<noteq> [] \<and> length (targets b) = length (inputs b) \<and>
         length (the (inference_result e w d b)) = length (inputs b)"
proof -
  from b have bt: "b \<in> set (takeWhile (\<lambda>b. inputs b \<noteq> [] \<and> decodes e w d b) q)"
    by (auto simp: processed_def Let_def split: if_splits dest: in_set_takeD)
  then have g: "inputs b \<noteq> [] \<and> decodes e w d b" and bq: "b \<in> set q"
    by (auto dest: set_takeWhileD)
  from g obtain h where h: "inference_result e w d b = Some h"
    by (auto simp: decodes_def split: option.splits)
  then obtain a where a: "identify (model w) = Inr a"
    by (auto simp: inference_result_def split: sum.splits)
  from h inference_result_eq[OF a, of e d b]
  have "hypothesis_at e a d (w\<lparr>model := model_to (model_eval (model w)) d\<rparr>) b = Some h" by simp
  from hypothesis_at_rows[OF rows this] have "length h = length (inputs b)" .
  with g h bq wf show ?thesis by simp
qed

lemma search_keeps_lengths:
  assumes rows: "one_row_per_sample e"
    and wf: "\<forall>b\<in>set q. length (targets b) = length (inputs b)"
    and eq: "length (target_list (self w)) = length (predict_list (self w))"
  shows "length (target_list (self (fst (snd (GreedySearch_search e w q d p))))) =
         length (predict_list (self (fst (snd (GreedySearch_search e w q d p)))))"
proof -
  have m: "map (\<lambda>b. length (targets b)) (processed e w d p q) =
        map (\<lambda>b. length (the (inference_result e w d b))) (processed e w d p q)"
  proof (rule map_cong[OF refl])
    fix b assume "b \<in> set (processed e w d p q)"
    from processed_rows[OF rows wf this]
    show "length (targets b) = length (the (inference_result e w d b))" by simp
  qed
  have A: "length (concat (map (\<lambda>b. map (label_to_string (vocab (self w))) (targets b))
               (processed e w d p q))) =
        sum_list (map (\<lambda>b. length (targets b)) (processed e w d p q))"
    by (simp add: length_concat comp_def)
  have B: "length (concat (map (\<lambda>b. map (label_to_string (vocab (self w)))
                                 (the (inference_result e w d b)))
               (processed e w d p q))) =
        sum_list (map (\<lambda>b. length (the (inference_result e w d b))) (processed e w d p q))"
    by (simp add: length_concat comp_def)
  have "length (concat (map (\<lambda>b. map (label_to_string (vocab (self w))) (targets b))
               (processed e w d p q))) =
        length (concat (map (\<lambda>b. map (label_to_string (vocab (self w)))
                                 (the (inference_result e w d b)))
               (processed e w d p q)))"
    unfolding A B m ..
  with search_lists_all[OF rows wf, of w d p] eq show ?thesis by simp
qed

lemma processed_all:
  assumes "p \<noteq> 0" and "inputs s = []" and "\<forall>x\<in>set bs. inputs x \<noteq> [] \<and> decodes e w d x"
  shows "processed e w d p (bs @ s # rest) = bs"
  using assms by (simp add: processed_def takeWhile_tail)

lemma identify_tag_of:
  "recognized mdl \<Longrightarrow> identify mdl = Inr (tag_of (module_class (unwrapped mdl)))"
  by (auto simp: recognized_def unwrapped_def identify_def tag_of_def split: model.splits)

lemma dispatch_convention:
  "c \<in> {ListenAttendSpell, SpeechTransformer, DeepSpeech2} \<Longrightarrow>
   dispatch (tag_of c) v (inputs b) (input_lengths b) d = Inr (convention c v d b)"
  by (auto simp: dispatch_def tag_of_def convention_def)

lemma hypothesis_at_convention:
  assumes "c \<in> {ListenAttendSpell, SpeechTransformer, DeepSpeech2}" and "model w = Module m"
  shows "hypothesis_at e (tag_of c) d w b =
           (case inference e (Module m) (convention c (vocab (self w)) d b) of
              Inl _ \<Rightarrow> None | Inr h \<Rightarrow> Some h)"
  by (simp add: hypothesis_at_def dispatch_convention[OF assms(1)] assms(2))

lemma run_batches_calls:
  assumes p: "p \<noteq> 0" and c: "c \<in> {ListenAttendSpell, SpeechTransformer, DeepSpeech2}"
  shows "\<forall>b\<in>set bs. decodable e (tag_of c) d w b \<Longrightarrow>
         run_batches e (tag_of c) d p bs l w = (Inr l1, w1) \<Longrightarrow>
         inference_calls w1 = inference_calls w @ map (convention c (vocab (self w)) d) bs"
proof (induction bs arbitrary: l w)
  case Nil
  then show ?case by simp
next
  case (Cons b bs)
  from Cons.prems(1) obtain h where
    h: "hypothesis_at e (tag_of c) d w b = Some h" "length (targets b) \<le> length h"
    by (auto simp: decodable_def split: option.splits)
  from h(1) obtain m where m: "model w = Module m"
    by (auto simp: hypothesis_at_def split: sum.splits model.splits)
  from loop_body_ok[OF p h, of l] obtain l2 w2 where
    lb: "loop_body e (tag_of c) d p b l w = (Inr l2, w2)" by blast
  from loop_body_inv[OF lb] have inv: "model w2 = model w" "vocab (self w2) = vocab (self w)"
    by simp_all
  from loop_body_calls[OF dispatch_convention[OF c, of "vocab (self w)" b d] m,
      where e=e and p=p and l=l] lb
  have c2: "inference_calls w2 = inference_calls w @ [convention c (vocab (self w)) d b]"
    by simp
  have dec: "\<forall>x\<in>set bs. decodable e (tag_of c) d w2 x"
    using Cons.prems(1) decodable_cong[OF inv] by simp
  have r: "run_batches e (tag_of c) d p bs l2 w2 = (Inr l1, w1)"
    using Cons.prems(2) lb by simp
  from Cons.IH[OF dec r] show ?case by (simp add: c2 inv)
qed

lemma wrapped_search_raises:
  assumes "model w = DataParallel m" and "recognized (model w)" and "inputs b \<noteq> []"
  shows "GreedySearch_search e w (b # q) d p =
           (Some (Inl AttributeError), w\<lparr>model := model_to (model_eval (model w)) d\<rparr>, q)"
proof -
  have c: "module_class m \<in> {ListenAttendSpell, SpeechTransformer, DeepSpeech2}"
    using assms(1,2) by (simp add: recognized_def unwrapped_def)
  have i: "identify (DataParallel m) = Inr (tag_of (module_class m))"
    using identify_tag_of[OF assms(2)] assms(1) by (simp add: unwrapped_def)
  show ?thesis
    using assms(3)
    by (simp add: GreedySearch_search_def i loop_body_def dispatch_convention[OF c] assms(1)
        model_to_def model_eval_def)
qed

lemma bare_search_inference_fails:
  assumes "model w = Module m" and "recognized (model w)" and "inputs b \<noteq> []"
    and "inference e (model_to (model_eval (model w)) d)
           (convention (module_class m) (vocab (self w)) d b) = Inl msg"
  shows "GreedySearch_search e w (b # q) d p =
           (Some (Inl (InferenceError msg)),
            w\<lparr>model := model_to (model_eval (model w)) d,
              inference_calls := inference_calls w @ [convention (module_class m) (vocab (self w)) d b]\<rparr>,
            q)"
proof -
  have c: "module_class m \<in> {ListenAttendSpell, SpeechTransformer, DeepSpeech2}"
    using assms(1,2) by (simp add: recognized_def unwrapped_def)
  have i: "identify (Module m) = Inr (tag_of (module_class m))"
    using identify_tag_of[OF assms(2)] assms(1) by (simp add: unwrapped_def)
  show ?thesis
    using assms(3,4)
    by (simp add: GreedySearch_search_def i loop_body_def dispatch_convention[OF c] assms(1)
        model_to_def model_eval_def Let_def)
qed

lemma bare_search_calls:
  assumes m: "model w = Module m" and r: "recognized (model w)" and p: "p \<noteq> 0"
    and s: "inputs s = []" and bs: "\<forall>x\<in>set bs. inputs x \<noteq> [] \<and> decodes e w d x"
  shows "inference_calls (fst (snd (GreedySearch_search e w (bs @ s # rest) d p))) =
           inference_calls w @ map (convention (module_class m) (vocab (self w)) d) bs"
proof -
  let ?c = "module_class m"
  let ?w0 = "w\<lparr>model := model_to (model_eval (model w)) d\<rparr>"
  let ?l0 = "\<lparr>cer = 0, total_sent_num = 0, timestep = 0\<rparr>"
  have c: "?c \<in> {ListenAttendSpell, SpeechTransformer, DeepSpeech2}"
    using m r by (simp add: recognized_def unwrapped_def)
  have i: "identify (model w) = Inr (tag_of ?c)"
    using identify_tag_of[OF r] m by (simp add: unwrapped_def)
  from search_prefix[OF p i bs s] obtain l1 w1 where
    rb: "run_batches e (tag_of ?c) d p bs ?l0 ?w0 = (Inr l1, w1)" and
    g: "\<forall>rest. GreedySearch_search e w (bs @ s # rest) d p = (Some (Inr (cer l1)), w1, rest)"
    by blast
  have dec: "\<forall>b\<in>set bs. decodable e (tag_of ?c) d ?w0 b"
    using bs decodes_eq[OF i, of e d] by simp
  from run_batches_calls[OF p c dec rb] g show ?thesis by simp
qed

lemma inference_result_convention:
  assumes m: "model w = Module m" and r: "recognized (model w)"
  shows "inference_result e w d b =
           (case inference e (model_to (model_eval (model w)) d)
                   (convention (module_class m) (vocab (self w)) d b) of
              Inl _ \<Rightarrow> None | Inr h \<Rightarrow> Some h)"
proof -
  have c: "module_class m \<in> {ListenAttendSpell, SpeechTransformer, DeepSpeech2}"
    using m r by (simp add: recognized_def unwrapped_def)
  have i: "identify (Module m) = Inr (tag_of (module_class m))"
    using identify_tag_of[OF r] m by (simp add: unwrapped_def)
  show ?thesis
    by (simp add: inference_result_def i dispatch_convention[OF c] m)
qed

text \<open>The definitions that evaluate a search on the concrete inputs.\<close>

lemmas run_defs =
  GreedySearch_search_def identify_def loop_body_def dispatch_def model_to_def model_eval_def
  inference_result_def decodes_def Let_def

lemmas input_defs =
  world0_def las0_def greedy0_def batch1_def batch2_def mismatched_def sentinel_def
  env0_def inputs_of_def vocab0_def CharacterErrorRate_def

section \<open>Verified properties\<close>

text \<open>
  C1. For every model, queue, device and \<^verbatim>\<open>print_every\<close>, \<^verbatim>\<open>BeamSearch.search\<close>
  installs a \<^verbatim>\<open>TopKDecoder\<close>, built from the decoder of the model and the beam width
  \<open>k\<close>, as the decoder of the model (of the wrapped module when the model is a
  \<^verbatim>\<open>DataParallel\<close>), and then is exactly \<^verbatim>\<open>GreedySearch.search\<close> on the same
  arguments: the source function equals the specification's two steps, with nothing else.
\<close>

theorem BeamSearch_search_refines_spec:
  "BeamSearch_search e w queue device print_every =
     spec_BeamSearch_search e w queue device print_every"
  by (simp add: BeamSearch_search_unfold spec_BeamSearch_search_def)

theorem BeamSearch_search_refines_spec_witness:
  "BeamSearch_search env0 beam_world0 [batch1, sentinel] ''cpu'' 1 =
     GreedySearch_search env0
       (beam_world0\<lparr>model := DataParallel (las0\<lparr>decoder := TopKDecoder (Decoder ''speller'') 3\<rparr>)\<rparr>)
       [batch1, sentinel] ''cpu'' 1"
  using BeamSearch_search_refines_spec [of env0 beam_world0 "[batch1, sentinel]" "''cpu''" 1]
  by (simp add: spec_BeamSearch_search_def install_topk_def with_module_def unwrapped_def
      set_decoder_def beam_world0_def beam0_def las0_def)




text \<open>
  C3. When the first batch of the queue is the sentinel (no input features), the search of
  a recognized model returns 0 and leaves the strategy object (so both lists), the logger
  and the record of inference calls as they were: only the model has been put in evaluation
  mode and moved to the device, and only the sentinel has been taken from the queue. The
  targets and the lengths of the sentinel are arbitrary: only its inputs are looked at.
\<close>

theorem sentinel_first_returns_zero:
  "recognized (model w) \<Longrightarrow> inputs b = [] \<Longrightarrow>
   GreedySearch_search e w (b # queue) device print_every =
     (Some (Inr 0), w\<lparr>model := model_to (model_eval (model w)) device\<rparr>, queue)"
  using identify_recognized[of "model w"]
  by (auto simp add: GreedySearch_search_def)

theorem sentinel_first_returns_zero_witness:
  "recognized (model world0) \<and> inputs (mismatched\<lparr>inputs := []\<rparr>) = [] \<and>
   fst (GreedySearch_search env0 world0 [mismatched\<lparr>inputs := []\<rparr>, batch1] ''cpu'' 0) = Some (Inr 0) \<and>
   self (fst (snd (GreedySearch_search env0 world0 [mismatched\<lparr>inputs := []\<rparr>, batch1] ''cpu'' 0))) = greedy0 \<and>
   inference_calls (fst (snd (GreedySearch_search env0 world0 [mismatched\<lparr>inputs := []\<rparr>, batch1] ''cpu'' 0))) = [] \<and>
   snd (snd (GreedySearch_search env0 world0 [mismatched\<lparr>inputs := []\<rparr>, batch1] ''cpu'' 0)) = [batch1]"
proof -
  have r: "recognized (model world0)"
    by (simp add: recognized_def unwrapped_def world0_def las0_def)
  have i: "inputs (mismatched\<lparr>inputs := []\<rparr>) = []" by simp
  show ?thesis
    using r sentinel_first_returns_zero [OF r i, of env0 "[batch1]" "''cpu''" 0]
    by (simp add: world0_def)
qed

text \<open>
  C4. For a model whose class, behind a \<^verbatim>\<open>DataParallel\<close> wrapper if there is one, is none
  of \<^verbatim>\<open>ListenAttendSpell\<close>, \<^verbatim>\<open>SpeechTransformer\<close> and \<^verbatim>\<open>DeepSpeech2\<close>, the search raises
  the unsupported-architecture error with the whole queue still in place and the world
  untouched: no batch has been fetched.
\<close>

theorem unsupported_architecture_before_any_batch:
  "\<not> recognized (model w) \<Longrightarrow>
   GreedySearch_search e w queue device print_every =
     (Some (Inl (Unsupported_architecture_class (module_class (unwrapped (model w))))), w, queue)"
  by (simp add: GreedySearch_search_def identify_unrecognized)

theorem unsupported_architecture_before_any_batch_witness:
  "\<not> recognized (DataParallel (las0\<lparr>module_class := OtherClass ''Linear''\<rparr>)) \<and>
   GreedySearch_search env0 (world0\<lparr>model := DataParallel (las0\<lparr>module_class := OtherClass ''Linear''\<rparr>)\<rparr>)
       [batch1, sentinel] ''cpu'' 1 =
     (Some (Inl (Unsupported_architecture_class (OtherClass ''Linear''))),
      world0\<lparr>model := DataParallel (las0\<lparr>module_class := OtherClass ''Linear''\<rparr>)\<rparr>,
      [batch1, sentinel])"
proof -
  have r: "\<not> recognized (model (world0\<lparr>model := DataParallel (las0\<lparr>module_class := OtherClass ''Linear''\<rparr>)\<rparr>))"
    by (simp add: recognized_def unwrapped_def)
  show ?thesis
    using r unsupported_architecture_before_any_batch [OF r, of env0 "[batch1, sentinel]" "''cpu''" 1]
    by (simp add: unwrapped_def)
qed

text \<open>
  C5. For a model of a recognized class, bare or wrapped, the identification assigns the
  tag of the class. For a bare model the tag selects the call of \<^verbatim>\<open>model.inference\<close>
  with the arguments of the class: the hypothesis of every batch is what inference returns
  for these arguments, an exception of that call is the outcome of the search, the calls
  made for the batches of a queue are these calls in order, and the predictions appended
  are the strings of the rows that they return. For a model wrapped in
  \<^verbatim>\<open>nn.DataParallel\<close> the property has the same call made, and the code does not make
  it: the lookup of \<^verbatim>\<open>inference\<close> on the wrapper raises \<^verbatim>\<open>AttributeError\<close> at the first
  batch that is not the sentinel.
\<close>

theorem architecture_tag_selects_call:
  "(recognized (model w) \<longrightarrow>
      identify (model w) = Inr (tag_of (module_class (unwrapped (model w))))) \<and>
   (model w = Module m \<and> recognized (model w) \<longrightarrow>
      inference_result e w d b =
        (case inference e (model_to (model_eval (model w)) d)
                (convention (module_class m) (vocab (self w)) d b) of
           Inl _ \<Rightarrow> None | Inr h \<Rightarrow> Some h) \<and>
      (inputs b \<noteq> [] \<and>
       inference e (model_to (model_eval (model w)) d)
         (convention (module_class m) (vocab (self w)) d b) = Inl msg \<longrightarrow>
         GreedySearch_search e w (b # q) d p =
           (Some (Inl (InferenceError msg)),
            w\<lparr>model := model_to (model_eval (model w)) d,
              inference_calls :=
                inference_calls w @ [convention (module_class m) (vocab (self w)) d b]\<rparr>,
            q)) \<and>
      (p \<noteq> 0 \<and> inputs s = [] \<and> (\<forall>x\<in>set bs. inputs x \<noteq> [] \<and> decodes e w d x) \<longrightarrow>
         inference_calls (fst (snd (GreedySearch_search e w (bs @ s # rest) d p))) =
           inference_calls w @ map (convention (module_class m) (vocab (self w)) d) bs \<and>
         predict_list (self (fst (snd (GreedySearch_search e w (bs @ s # rest) d p)))) =
           predict_list (self w) @
             concat (map (\<lambda>x. map (label_to_string (vocab (self w)))
                                 (take (length (targets x)) (the (inference_result e w d x)))) bs))) \<and>
   (model w = DataParallel m \<and> recognized (model w) \<and> inputs b \<noteq> [] \<longrightarrow>
      GreedySearch_search e w (b # q) d p =
        (Some (Inl AttributeError), w\<lparr>model := model_to (model_eval (model w)) d\<rparr>, q))"
proof (intro conjI impI)
  assume "recognized (model w)"
  then show "identify (model w) = Inr (tag_of (module_class (unwrapped (model w))))"
    by (rule identify_tag_of)
next
  assume a: "model w = Module m \<and> recognized (model w)"
  then show "inference_result e w d b =
        (case inference e (model_to (model_eval (model w)) d)
                (convention (module_class m) (vocab (self w)) d b) of
           Inl _ \<Rightarrow> None | Inr h \<Rightarrow> Some h)"
    using inference_result_convention[of w m e d b] by blast
next
  assume a: "model w = Module m \<and> recognized (model w)"
    and b: "inputs b \<noteq> [] \<and>
       inference e (model_to (model_eval (model w)) d)
         (convention (module_class m) (vocab (self w)) d b) = Inl msg"
  then show "GreedySearch_search e w (b # q) d p =
           (Some (Inl (InferenceError msg)),
            w\<lparr>model := model_to (model_eval (model w)) d,
              inference_calls :=
                inference_calls w @ [convention (module_class m) (vocab (self w)) d b]\<rparr>,
            q)"
    using bare_search_inference_fails[of w m b e d msg q p] by blast
next
  assume a: "model w = Module m \<and> recognized (model w)"
    and b: "p \<noteq> 0 \<and> inputs s = [] \<and> (\<forall>x\<in>set bs. inputs x \<noteq> [] \<and> decodes e w d x)"
  then show "inference_calls (fst (snd (GreedySearch_search e w (bs @ s # rest) d p))) =
           inference_calls w @ map (convention (module_class m) (vocab (self w)) d) bs"
    using bare_search_calls[of w m p s bs e d rest] by blast
next
  assume b: "p \<noteq> 0 \<and> inputs s = [] \<and> (\<forall>x\<in>set bs. inputs x \<noteq> [] \<and> decodes e w d x)"
  then show "predict_list (self (fst (snd (GreedySearch_search e w (bs @ s # rest) d p)))) =
           predict_list (self w) @
             concat (map (\<lambda>x. map (label_to_string (vocab (self w)))
                                 (take (length (targets x)) (the (inference_result e w d x)))) bs)"
    using search_lists[of p s bs e w d rest] by blast
next
  assume "model w = DataParallel m \<and> recognized (model w) \<and> inputs b \<noteq> []"
  then show "GreedySearch_search e w (b # q) d p =
        (Some (Inl AttributeError), w\<lparr>model := model_to (model_eval (model w)) d\<rparr>, q)"
    using wrapped_search_raises[of w m b e q d p] by blast
qed

theorem architecture_tag_selects_call_witness:
  "recognized (model world0) \<and> identify (model world0) = Inr ''las'' \<and>
   inference_calls (fst (snd (GreedySearch_search env0 world0 [batch1, batch2, sentinel] ''cuda'' 1))) =
     [Args_device [[[1]]] [1] ''cuda'', Args_device [[[1]], [[2]]] [1, 1] ''cuda''] \<and>
   predict_list (self (fst (snd (GreedySearch_search env0 world0 [batch1, batch2, sentinel] ''cuda'' 1)))) =
     [''ab'', ''ab'', ''ab''] \<and>
   identify (Module transformer0) = Inr ''transformer'' \<and>
   inference_calls (fst (snd (GreedySearch_search env0
       (world0\<lparr>model := Module transformer0\<rparr>) [batch1, sentinel] ''cuda'' 1))) =
     [Args_plain [[[1]]] [1]] \<and>
   identify (Module deepspeech0) = Inr ''deepspeech2'' \<and>
   inference_calls (fst (snd (GreedySearch_search env0
       (world0\<lparr>model := Module deepspeech0\<rparr>) [batch1, sentinel] ''cuda'' 1))) =
     [Args_blank_label [[[1]]] [1] 2] \<and>
   fst (GreedySearch_search failing_env world0 [batch1, sentinel] ''cuda'' 1) =
     Some (Inl (InferenceError ''out of memory'')) \<and>
   recognized (model wrapped_world0) \<and> identify (model wrapped_world0) = Inr ''las'' \<and>
   fst (GreedySearch_search env0 wrapped_world0 [batch1, sentinel] ''cuda'' 1) =
     Some (Inl AttributeError) \<and>
   inference_calls (fst (snd (GreedySearch_search env0 wrapped_world0 [batch1, sentinel] ''cuda'' 1))) = []"
proof -
  have p: "(1::int) \<noteq> 0" by simp
  have s: "inputs sentinel = []" by (simp add: sentinel_def)
  have b: "inputs batch1 \<noteq> []" by (simp add: batch1_def)
  have r1: "recognized (model world0)" "model world0 = Module las0"
    by (simp_all add: recognized_def unwrapped_def world0_def las0_def)
  have r2: "recognized (model (world0\<lparr>model := Module transformer0\<rparr>))"
    by (simp add: recognized_def unwrapped_def transformer0_def)
  have r3: "recognized (model (world0\<lparr>model := Module deepspeech0\<rparr>))"
    by (simp add: recognized_def unwrapped_def deepspeech0_def)
  have r4: "recognized (model wrapped_world0)" "model wrapped_world0 = DataParallel las0"
    by (simp_all add: recognized_def unwrapped_def wrapped_world0_def las0_def)
  have d1: "\<forall>x\<in>set [batch1, batch2]. inputs x \<noteq> [] \<and> decodes env0 world0 ''cuda'' x"
    by (simp add: run_defs input_defs)
  have d2: "\<forall>x\<in>set [batch1]. inputs x \<noteq> [] \<and>
      decodes env0 (world0\<lparr>model := Module transformer0\<rparr>) ''cuda'' x"
    by (simp add: run_defs input_defs transformer0_def)
  have d3: "\<forall>x\<in>set [batch1]. inputs x \<noteq> [] \<and>
      decodes env0 (world0\<lparr>model := Module deepspeech0\<rparr>) ''cuda'' x"
    by (simp add: run_defs input_defs deepspeech0_def)
  have f: "inference failing_env (model_to (model_eval (model world0)) ''cuda'')
      (convention (module_class las0) (vocab (self world0)) ''cuda'' batch1) = Inl ''out of memory''"
    by (simp add: failing_env_def)
  note t1 = architecture_tag_selects_call [where w=world0 and m=las0 and e=env0 and d="''cuda''"
      and p=1 and s=sentinel and bs="[batch1, batch2]" and rest="[]"]
  note t2 = architecture_tag_selects_call [where w="world0\<lparr>model := Module transformer0\<rparr>"
      and m=transformer0 and e=env0 and d="''cuda''" and p=1 and s=sentinel and bs="[batch1]"
      and rest="[]"]
  note t3 = architecture_tag_selects_call [where w="world0\<lparr>model := Module deepspeech0\<rparr>"
      and m=deepspeech0 and e=env0 and d="''cuda''" and p=1 and s=sentinel and bs="[batch1]"
      and rest="[]"]
  note t4 = architecture_tag_selects_call [where w=world0 and m=las0 and e=failing_env
      and d="''cuda''" and b=batch1 and msg="''out of memory''" and q="[sentinel]" and p=1]
  note t5 = architecture_tag_selects_call [where w=wrapped_world0 and m=las0 and e=env0
      and d="''cuda''" and b=batch1 and q="[sentinel]" and p=1]
  have c1: "identify (model world0) = Inr ''las'' \<and>
   inference_calls (fst (snd (GreedySearch_search env0 world0 [batch1, batch2, sentinel] ''cuda'' 1))) =
     [Args_device [[[1]]] [1] ''cuda'', Args_device [[[1]], [[2]]] [1, 1] ''cuda''] \<and>
   predict_list (self (fst (snd (GreedySearch_search env0 world0 [batch1, batch2, sentinel] ''cuda'' 1)))) =
     [''ab'', ''ab'', ''ab'']"
    using t1 r1 p s d1
    by (simp add: tag_of_def convention_def unwrapped_def inference_result_def identify_def
        dispatch_def model_to_def model_eval_def input_defs)
  have c2: "identify (Module transformer0) = Inr ''transformer'' \<and>
   inference_calls (fst (snd (GreedySearch_search env0
       (world0\<lparr>model := Module transformer0\<rparr>) [batch1, sentinel] ''cuda'' 1))) =
     [Args_plain [[[1]]] [1]]"
    using t2 r2 p s d2
    by (simp add: tag_of_def convention_def unwrapped_def transformer0_def world0_def batch1_def)
  have c3: "identify (Module deepspeech0) = Inr ''deepspeech2'' \<and>
   inference_calls (fst (snd (GreedySearch_search env0
       (world0\<lparr>model := Module deepspeech0\<rparr>) [batch1, sentinel] ''cuda'' 1))) =
     [Args_blank_label [[[1]]] [1] 2]"
    using t3 r3 p s d3
    by (simp add: tag_of_def convention_def unwrapped_def deepspeech0_def world0_def batch1_def
        greedy0_def vocab0_def)
  have c4: "fst (GreedySearch_search failing_env world0 [batch1, sentinel] ''cuda'' 1) =
     Some (Inl (InferenceError ''out of memory''))"
    using t4 r1 b f by simp
  have c5: "identify (model wrapped_world0) = Inr ''las'' \<and>
   fst (GreedySearch_search env0 wrapped_world0 [batch1, sentinel] ''cuda'' 1) =
     Some (Inl AttributeError) \<and>
   inference_calls (fst (snd (GreedySearch_search env0 wrapped_world0 [batch1, sentinel] ''cuda'' 1))) = []"
    using t5 r4 b
    by (simp add: tag_of_def unwrapped_def las0_def wrapped_world0_def)
  from r1(1) r4(1) c1 c2 c3 c4 c5 show ?thesis by blast
qed

text \<open>
  C6. With \<^verbatim>\<open>print_every = p > 0\<close> and a queue that delivers the batches \<open>bs\<close>, which
  all decode, and then the sentinel, the reports given to the logger during the search are
  those of the batch indices \<open>i\<close> below the number of batches with \<open>i mod p = 0\<close>, in
  order and no others; the report of index \<open>i\<close> is the metric value current at that
  batch, which is what the search returns when the sentinel follows batch \<open>i\<close>.
\<close>

theorem progress_report_cadence:
  assumes p: "0 < p" and s: "inputs s = []"
    and bs: "\<forall>x\<in>set bs. inputs x \<noteq> [] \<and> decodes e w d x"
  shows "logger (fst (snd (GreedySearch_search e w (bs @ s # rest) d p))) =
           logger w @
             map (\<lambda>i. returned (GreedySearch_search e w (take (Suc i) bs @ [s]) d p))
               (filter (\<lambda>i. int i mod p = 0) [0..<length bs]) \<and>
         (\<forall>i<length bs.
            fst (GreedySearch_search e w (take (Suc i) bs @ [s]) d p) =
              Some (Inr (returned (GreedySearch_search e w (take (Suc i) bs @ [s]) d p))))"
proof -
  have "p \<noteq> 0" using p by simp
  from logger_after_search[OF p s bs] prefix_returns[OF this s bs] show ?thesis by blast
qed

theorem progress_report_cadence_witness:
  "(0::int) < 2 \<and> inputs sentinel = [] \<and>
   logger (fst (snd (GreedySearch_search env0 world0 [batch1, batch2, batch1, sentinel] ''cpu'' 2))) =
     [1, 4] \<and>
   fst (GreedySearch_search env0 world0 [batch1, sentinel] ''cpu'' 2) = Some (Inr 1) \<and>
   fst (GreedySearch_search env0 world0 [batch1, batch2, sentinel] ''cpu'' 2) = Some (Inr 3) \<and>
   fst (GreedySearch_search env0 world0 [batch1, batch2, batch1, sentinel] ''cpu'' 2) = Some (Inr 4)"
proof -
  have p: "(0::int) < 2" by simp
  have s: "inputs sentinel = []" by (simp add: sentinel_def)
  have bs: "\<forall>x\<in>set [batch1, batch2, batch1]. inputs x \<noteq> [] \<and> decodes env0 world0 ''cpu'' x"
    by (simp add: run_defs input_defs)
  note t = progress_report_cadence [OF p s bs, of "[]"]
  show ?thesis
    using p s t by (simp add: returned_def run_defs input_defs)
qed

text \<open>
  C7. The constructor of the greedy strategy fails with the unsupported-metric error for
  every metric string other than \<^verbatim>\<open>'char'\<close> and \<^verbatim>\<open>'word'\<close>; with \<^verbatim>\<open>'char'\<close> it
  builds the object with a character error rate and with \<^verbatim>\<open>'word'\<close> with a word error
  rate; and no search ever ends in the unsupported-metric error.
\<close>

theorem metric_kind_checked_at_construction:
  "(m \<noteq> ''char'' \<and> m \<noteq> ''word'' \<longrightarrow> GreedySearch_init e v m = Inl (Unsupported_metric m)) \<and>
   GreedySearch_init e v ''char'' =
     Inr \<lparr>target_list = [], predict_list = [], vocab = v, metric = CharacterErrorRate e v\<rparr> \<and>
   GreedySearch_init e v ''word'' =
     Inr \<lparr>target_list = [], predict_list = [], vocab = v, metric = WordErrorRate e v\<rparr> \<and>
   kind (CharacterErrorRate e v) = Character \<and> kind (WordErrorRate e v) = Word \<and>
   fst (GreedySearch_search e w q d p) \<noteq> Some (Inl (Unsupported_metric m'))"
proof -
  have "fst (GreedySearch_search e w q d p) \<noteq> Some (Inl (Unsupported_metric m'))"
    using search_errors[of e w q d p "Unsupported_metric m'"] by auto
  then show ?thesis
    by (simp add: GreedySearch_init_def CharacterErrorRate_def WordErrorRate_def)
qed

theorem metric_kind_checked_at_construction_witness:
  "''cer'' \<noteq> ''char'' \<and> ''cer'' \<noteq> ''word'' \<and>
   GreedySearch_init env0 vocab0 ''cer'' = Inl (Unsupported_metric ''cer'') \<and>
   GreedySearch_init env0 vocab0 ''char'' = Inr greedy0 \<and>
   kind (metric greedy0) = Character \<and>
   fst (GreedySearch_search env0 world0 [batch1, sentinel] ''cpu'' 1) \<noteq>
     Some (Inl (Unsupported_metric ''char''))"
proof -
  have m: "''cer'' \<noteq> ''char'' \<and> ''cer'' \<noteq> ''word''" by simp
  note t = metric_kind_checked_at_construction [of "''cer''" env0 vocab0 world0
      "[batch1, sentinel]" "''cpu''" 1 "''char''"]
  from m t show ?thesis by (simp add: greedy0_def)
qed

text \<open>
  C8, as amended. The greedy strategy is constructed over a vocabulary and a metric kind.
  The beam strategy is constructed over a vocabulary and the beam width \<open>k\<close>: its
  constructor has no metric-kind argument, and its metric is always the character error
  rate.
\<close>

theorem beam_constructor_takes_vocab_and_k:
  "BeamSearch_init e v k0 =
     Inr \<lparr>target_list = [], predict_list = [], vocab = v, metric = CharacterErrorRate e v, k = k0\<rparr> \<and>
   kind (CharacterErrorRate e v) = Character \<and>
   GreedySearch_init e v ''char'' =
     Inr \<lparr>target_list = [], predict_list = [], vocab = v, metric = CharacterErrorRate e v\<rparr> \<and>
   GreedySearch_init e v ''word'' =
     Inr \<lparr>target_list = [], predict_list = [], vocab = v, metric = WordErrorRate e v\<rparr>"
  by (simp add: BeamSearch_init_def GreedySearch_init_def CharacterErrorRate_def)

theorem beam_constructor_takes_vocab_and_k_witness:
  "BeamSearch_init env0 vocab0 3 = Inr beam0 \<and> kind (metric beam0) = Character"
  using beam_constructor_takes_vocab_and_k [of env0 vocab0 3]
  by (simp add: beam0_def)

text \<open>
  C8, as stated, asks for a beam constructor that selects between the character and the
  word error rate. The beam strategy built over the vocabulary and the width 3 has the
  character error rate; the word error rate is only reached through the greedy constructor.
\<close>

theorem beam_constructor_metric_counterexample:
  "BeamSearch_init env0 vocab0 3 = Inr beam0 \<and> kind (metric beam0) \<noteq> Word \<and>
   GreedySearch_init env0 vocab0 ''word'' =
     Inr (greedy0\<lparr>metric := WordErrorRate env0 vocab0\<rparr>) \<and>
   kind (WordErrorRate env0 vocab0) = Word"
  by (simp add: BeamSearch_init_def GreedySearch_init_def beam0_def greedy0_def
      CharacterErrorRate_def WordErrorRate_def)

text \<open>
  C9. In the data model of the specification, where a batch has one row of targets for
  every sample and a hypothesis one row for every sample of the inputs: both lists are
  empty after construction; \<^verbatim>\<open>save_result\<close> leaves the object as it was; and a call of
  \<^verbatim>\<open>search\<close>, greedy or beam, on an object whose lists have equal length leaves them of
  equal length, for every queue, every \<^verbatim>\<open>print_every\<close> and every model, whether the call
  returns, raises or blocks. The lists after the call are the lists before it followed, for
  every processed batch in order of arrival, by the string of each target row and by the
  string of each hypothesis row, one of each for every sample. In a run with
  \<^verbatim>\<open>print_every\<close> not zero whose batches decode up to the sentinel, the processed batches
  are all the batches before the sentinel.
\<close>

theorem lists_grow_together:
  assumes rows: "one_row_per_sample e"
    and wf: "\<forall>b\<in>set q. length (targets b) = length (inputs b)"
  shows
  "(GreedySearch_init e v m = Inr s0 \<longrightarrow> target_list s0 = [] \<and> predict_list s0 = []) \<and>
   (BeamSearch_init e v k0 = Inr s1 \<longrightarrow> target_list s1 = [] \<and> predict_list s1 = []) \<and>
   fst (snd (save_result s2 fs path)) = s2 \<and>
   (length (target_list (self w)) = length (predict_list (self w)) \<longrightarrow>
      length (target_list (self (fst (snd (GreedySearch_search e w q d p))))) =
        length (predict_list (self (fst (snd (GreedySearch_search e w q d p)))))) \<and>
   (length (target_list (self wb)) = length (predict_list (self wb)) \<longrightarrow>
      length (target_list (self (fst (snd (BeamSearch_search e wb q d p))))) =
        length (predict_list (self (fst (snd (BeamSearch_search e wb q d p)))))) \<and>
   target_list (self (fst (snd (GreedySearch_search e w q d p)))) =
     target_list (self w) @
       concat (map (\<lambda>b. map (label_to_string (vocab (self w))) (targets b))
         (processed e w d p q)) \<and>
   predict_list (self (fst (snd (GreedySearch_search e w q d p)))) =
     predict_list (self w) @
       concat (map (\<lambda>b. map (label_to_string (vocab (self w))) (the (inference_result e w d b)))
         (processed e w d p q)) \<and>
   (\<forall>b\<in>set (processed e w d p q).
      length (targets b) = length (inputs b) \<and>
      length (the (inference_result e w d b)) = length (inputs b)) \<and>
   target_list (self (fst (snd (BeamSearch_search e wb q d p)))) =
     target_list (self wb) @
       concat (map (\<lambda>b. map (label_to_string (vocab (self wb))) (targets b))
         (processed e (wb\<lparr>model := install_topk (k (self wb)) (model wb)\<rparr>) d p q)) \<and>
   predict_list (self (fst (snd (BeamSearch_search e wb q d p)))) =
     predict_list (self wb) @
       concat (map (\<lambda>b. map (label_to_string (vocab (self wb)))
                           (the (inference_result e
                                  (wb\<lparr>model := install_topk (k (self wb)) (model wb)\<rparr>) d b)))
         (processed e (wb\<lparr>model := install_topk (k (self wb)) (model wb)\<rparr>) d p q)) \<and>
   (p' \<noteq> 0 \<and> inputs s = [] \<and> (\<forall>x\<in>set bs. inputs x \<noteq> [] \<and> decodes e w d x) \<longrightarrow>
      processed e w d p' (bs @ s # rest) = bs)"
proof -
  let ?wb = "wb\<lparr>model := install_topk (k (self wb)) (model wb)\<rparr>"
  have 1: "GreedySearch_init e v m = Inr s0 \<longrightarrow> target_list s0 = [] \<and> predict_list s0 = []"
    by (auto simp: GreedySearch_init_def split: if_splits)
  have 2: "BeamSearch_init e v k0 = Inr s1 \<longrightarrow> target_list s1 = [] \<and> predict_list s1 = []"
    by (auto simp: BeamSearch_init_def GreedySearch_init_def)
  have 3: "fst (snd (save_result s2 fs path)) = s2"
    by (simp add: save_result_def)
  have 4: "length (target_list (self w)) = length (predict_list (self w)) \<longrightarrow>
      length (target_list (self (fst (snd (GreedySearch_search e w q d p))))) =
        length (predict_list (self (fst (snd (GreedySearch_search e w q d p)))))"
    using search_keeps_lengths[OF rows wf, of w d p] by blast
  have 5: "length (target_list (self wb)) = length (predict_list (self wb)) \<longrightarrow>
      length (target_list (self (fst (snd (BeamSearch_search e wb q d p))))) =
        length (predict_list (self (fst (snd (BeamSearch_search e wb q d p)))))"
    using search_keeps_lengths[OF rows wf, of ?wb d p]
    by (simp only: BeamSearch_search_unfold) simp
  note 6 = search_lists_all[OF rows wf, of w d p]
  have 7: "\<forall>b\<in>set (processed e w d p q).
      length (targets b) = length (inputs b) \<and>
      length (the (inference_result e w d b)) = length (inputs b)"
    using processed_rows[OF rows wf, of _ w d p] by auto
  have 8: "target_list (self (fst (snd (BeamSearch_search e wb q d p)))) =
     target_list (self wb) @
       concat (map (\<lambda>b. map (label_to_string (vocab (self wb))) (targets b))
         (processed e ?wb d p q)) \<and>
   predict_list (self (fst (snd (BeamSearch_search e wb q d p)))) =
     predict_list (self wb) @
       concat (map (\<lambda>b. map (label_to_string (vocab (self wb)))
                           (the (inference_result e ?wb d b)))
         (processed e ?wb d p q))"
    using search_lists_all[OF rows wf, of ?wb d p]
    by (simp only: BeamSearch_search_unfold) simp
  have 9: "p' \<noteq> 0 \<and> inputs s = [] \<and> (\<forall>x\<in>set bs. inputs x \<noteq> [] \<and> decodes e w d x) \<longrightarrow>
      processed e w d p' (bs @ s # rest) = bs"
    using processed_all[of p' s bs e w d rest] by blast
  from 1 2 3 4 5 6 7 8 9 show ?thesis by blast
qed

theorem lists_grow_together_witness:
  "one_row_per_sample env0 \<and>
   GreedySearch_init env0 vocab0 ''char'' = Inr greedy0 \<and> target_list greedy0 = [] \<and>
   predict_list greedy0 = [] \<and>
   BeamSearch_init env0 vocab0 3 = Inr beam0 \<and> target_list beam0 = [] \<and> predict_list beam0 = [] \<and>
   fst (snd (save_result greedy0 fs0 ''result.csv'')) = greedy0 \<and>
   processed env0 world0 ''cpu'' 1 [batch1, batch2, sentinel, batch1] = [batch1, batch2] \<and>
   target_list (self (fst (snd (GreedySearch_search env0 world0 [batch1, batch2, sentinel, batch1] ''cpu'' 1)))) =
     [''ba'', ''ba'', ''bb''] \<and>
   predict_list (self (fst (snd (GreedySearch_search env0 world0 [batch1, batch2, sentinel, batch1] ''cpu'' 1)))) =
     [''ab'', ''ab'', ''ab''] \<and>
   fst (GreedySearch_search env0 world0 [batch2, batch1] ''cpu'' 0) = Some (Inl ZeroDivisionError) \<and>
   processed env0 world0 ''cpu'' 0 [batch2, batch1] = [batch2] \<and>
   target_list (self (fst (snd (GreedySearch_search env0 world0 [batch2, batch1] ''cpu'' 0)))) =
     [''ba'', ''bb''] \<and>
   predict_list (self (fst (snd (GreedySearch_search env0 world0 [batch2, batch1] ''cpu'' 0)))) =
     [''ab'', ''ab''] \<and>
   target_list (self (fst (snd (BeamSearch_search env0 bare_beam_world0 [batch1, sentinel] ''cpu'' 1)))) =
     [''ba''] \<and>
   predict_list (self (fst (snd (BeamSearch_search env0 bare_beam_world0 [batch1, sentinel] ''cpu'' 1)))) =
     [''ab''] \<and>
   length (target_list (self (fst (snd (BeamSearch_search env0 beam_world0 [batch1, sentinel] ''cpu'' 1))))) =
     length (predict_list (self (fst (snd (BeamSearch_search env0 beam_world0 [batch1, sentinel] ''cpu'' 1)))))"
proof -
  have rows: "one_row_per_sample env0"
    by (simp add: one_row_per_sample_def env0_def)
  have wf1: "\<forall>b\<in>set [batch1, batch2, sentinel, batch1]. length (targets b) = length (inputs b)"
    by (simp add: batch1_def batch2_def sentinel_def)
  have wf2: "\<forall>b\<in>set [batch2, batch1]. length (targets b) = length (inputs b)"
    by (simp add: batch1_def batch2_def)
  have wf3: "\<forall>b\<in>set [batch1, sentinel]. length (targets b) = length (inputs b)"
    by (simp add: batch1_def sentinel_def)
  have i: "GreedySearch_init env0 vocab0 ''char'' = Inr greedy0"
    by (simp add: GreedySearch_init_def greedy0_def)
  have ib: "BeamSearch_init env0 vocab0 3 = Inr beam0"
    by (simp add: BeamSearch_init_def GreedySearch_init_def beam0_def)
  have eqb: "length (target_list (self beam_world0)) = length (predict_list (self beam_world0))"
    by (simp add: beam_world0_def beam0_def)
  have z: "fst (GreedySearch_search env0 world0 [batch2, batch1] ''cpu'' 0) = Some (Inl ZeroDivisionError)"
    by (simp add: run_defs input_defs)
  have p1: "processed env0 world0 ''cpu'' 1 [batch1, batch2, sentinel, batch1] = [batch1, batch2]"
    by (simp add: processed_def run_defs input_defs)
  have p2: "processed env0 world0 ''cpu'' 0 [batch2, batch1] = [batch2]"
    by (simp add: processed_def run_defs input_defs)
  have p3: "processed env0
      (bare_beam_world0\<lparr>model := install_topk (k (self bare_beam_world0)) (model bare_beam_world0)\<rparr>)
      ''cpu'' 1 [batch1, sentinel] = [batch1]"
    by (simp add: processed_def run_defs input_defs bare_beam_world0_def beam0_def
        install_topk_def with_module_def unwrapped_def set_decoder_def)
  note t1 = lists_grow_together [OF rows wf1, where v=vocab0 and m="''char''" and ?s0.0=greedy0
      and ?k0.0=3 and ?s1.0=beam0 and ?s2.0=greedy0 and fs=fs0 and path="''result.csv''" and w=world0
      and d="''cpu''" and p=1 and wb=beam_world0]
  note t2 = lists_grow_together [OF rows wf2, where w=world0 and d="''cpu''" and p=0]
  note t3 = lists_grow_together [OF rows wf3, where wb=bare_beam_world0 and d="''cpu''" and p=1]
  note t4 = lists_grow_together [OF rows wf3, where wb=beam_world0 and d="''cpu''" and p=1]
  have c1: "target_list greedy0 = [] \<and> predict_list greedy0 = [] \<and>
     target_list beam0 = [] \<and> predict_list beam0 = [] \<and>
     fst (snd (save_result greedy0 fs0 ''result.csv'')) = greedy0 \<and>
     target_list (self (fst (snd (GreedySearch_search env0 world0 [batch1, batch2, sentinel, batch1] ''cpu'' 1)))) =
       [''ba'', ''ba'', ''bb''] \<and>
     predict_list (self (fst (snd (GreedySearch_search env0 world0 [batch1, batch2, sentinel, batch1] ''cpu'' 1)))) =
       [''ab'', ''ab'', ''ab'']"
    using t1 i ib by (simp add: p1 run_defs input_defs)
  have c2: "target_list (self (fst (snd (GreedySearch_search env0 world0 [batch2, batch1] ''cpu'' 0)))) =
       [''ba'', ''bb''] \<and>
     predict_list (self (fst (snd (GreedySearch_search env0 world0 [batch2, batch1] ''cpu'' 0)))) =
       [''ab'', ''ab'']"
    using t2 [THEN conjunct2, THEN conjunct2, THEN conjunct2, THEN conjunct2, THEN conjunct2,
        THEN conjunct1]
      t2 [THEN conjunct2, THEN conjunct2, THEN conjunct2, THEN conjunct2, THEN conjunct2,
        THEN conjunct2, THEN conjunct1]
    unfolding p2
    by (simp add: run_defs input_defs)
  have c3: "target_list (self (fst (snd (BeamSearch_search env0 bare_beam_world0 [batch1, sentinel] ''cpu'' 1)))) =
       [''ba''] \<and>
     predict_list (self (fst (snd (BeamSearch_search env0 bare_beam_world0 [batch1, sentinel] ''cpu'' 1)))) =
       [''ab'']"
    using t3 [THEN conjunct2, THEN conjunct2, THEN conjunct2, THEN conjunct2, THEN conjunct2,
        THEN conjunct2, THEN conjunct2, THEN conjunct2, THEN conjunct1]
      t3 [THEN conjunct2, THEN conjunct2, THEN conjunct2, THEN conjunct2, THEN conjunct2,
        THEN conjunct2, THEN conjunct2, THEN conjunct2, THEN conjunct2, THEN conjunct1]
    unfolding p3
    by (simp add: run_defs input_defs bare_beam_world0_def beam0_def
        install_topk_def with_module_def unwrapped_def set_decoder_def)
  have c4: "length (target_list (self (fst (snd (BeamSearch_search env0 beam_world0 [batch1, sentinel] ''cpu'' 1))))) =
     length (predict_list (self (fst (snd (BeamSearch_search env0 beam_world0 [batch1, sentinel] ''cpu'' 1)))))"
    using t4 [THEN conjunct2, THEN conjunct2, THEN conjunct2, THEN conjunct2, THEN conjunct1] eqb
    by simp
  from rows i ib z p1 p2 c1 c2 c3 c4 show ?thesis by blast
qed

text \<open>
  C10. The tag that the identification assigns is one of \<^verbatim>\<open>'las'\<close>,
  \<^verbatim>\<open>'transformer'\<close> and \<^verbatim>\<open>'deepspeech2'\<close>, for which the dispatch does not take its
  \<^verbatim>\<open>else\<close> arm; that arm raises for every other tag, and no search, greedy or beam, ever
  ends in its error.
\<close>

theorem dispatch_else_unreachable:
  "(identify (model w) = Inr a \<longrightarrow>
      (a = ''las'' \<or> a = ''transformer'' \<or> a = ''deepspeech2'') \<and>
      dispatch a v i n dv \<noteq> Inl (Unsupported_architecture_tag a)) \<and>
   (t \<noteq> ''las'' \<and> t \<noteq> ''transformer'' \<and> t \<noteq> ''deepspeech2'' \<longrightarrow>
      dispatch t v i n dv = Inl (Unsupported_architecture_tag t)) \<and>
   fst (GreedySearch_search e w q d p) \<noteq> Some (Inl (Unsupported_architecture_tag t')) \<and>
   fst (BeamSearch_search e wb q d p) \<noteq> Some (Inl (Unsupported_architecture_tag t'))"
proof -
  have 1: "identify (model w) = Inr a \<longrightarrow>
      (a = ''las'' \<or> a = ''transformer'' \<or> a = ''deepspeech2'') \<and>
      dispatch a v i n dv \<noteq> Inl (Unsupported_architecture_tag a)"
    using identify_tag[of "model w" a] dispatch_tag[of a v i n dv] by blast
  have 2: "t \<noteq> ''las'' \<and> t \<noteq> ''transformer'' \<and> t \<noteq> ''deepspeech2'' \<longrightarrow>
      dispatch t v i n dv = Inl (Unsupported_architecture_tag t)"
    by (simp add: dispatch_def)
  have 3: "fst (GreedySearch_search e w q d p) \<noteq> Some (Inl (Unsupported_architecture_tag t'))"
    using search_errors[of e w q d p "Unsupported_architecture_tag t'"] by auto
  have 4: "fst (BeamSearch_search e wb q d p) \<noteq> Some (Inl (Unsupported_architecture_tag t'))"
    using search_errors[of e "wb\<lparr>model := install_topk (k (self wb)) (model wb)\<rparr>" q d p
        "Unsupported_architecture_tag t'"]
    by (auto simp: BeamSearch_search_unfold)
  from 1 2 3 4 show ?thesis by blast
qed

theorem dispatch_else_unreachable_witness:
  "identify (model world0) = Inr ''las'' \<and>
   dispatch ''las'' vocab0 [] [] ''cpu'' \<noteq> Inl (Unsupported_architecture_tag ''las'') \<and>
   ''ctc'' \<noteq> ''las'' \<and> ''ctc'' \<noteq> ''transformer'' \<and> ''ctc'' \<noteq> ''deepspeech2'' \<and>
   dispatch ''ctc'' vocab0 [] [] ''cpu'' = Inl (Unsupported_architecture_tag ''ctc'') \<and>
   fst (GreedySearch_search env0 world0 [batch1, sentinel] ''cpu'' 1) \<noteq>
     Some (Inl (Unsupported_architecture_tag ''las'')) \<and>
   fst (BeamSearch_search env0 beam_world0 [batch1, sentinel] ''cpu'' 1) \<noteq>
     Some (Inl (Unsupported_architecture_tag ''las''))"
proof -
  have a: "identify (model world0) = Inr ''las''"
    by (simp add: identify_def world0_def las0_def)
  have c: "''ctc'' \<noteq> ''las'' \<and> ''ctc'' \<noteq> ''transformer'' \<and> ''ctc'' \<noteq> ''deepspeech2''" by simp
  note t = dispatch_else_unreachable [of world0 "''las''" vocab0 "[]" "[]" "''cpu''" "''ctc''"
      env0 "[batch1, sentinel]" "''cpu''" 1 "''las''" beam_world0]
  from a c t show ?thesis by simp
qed

end
